theory Spec2Isabelle
  imports Complex_Main "HOL-Library.Word"
begin

unbundle bit_operations_syntax

chapter \<open>entropy-zero firmware: \<^verbatim>\<open>main/main.c\<close>\<close>

text \<open>
  A shallow embedding of the firmware's single source file. Calls into the ESP-IDF and
  FreeRTOS libraries are recorded in the state as lists of calls, oldest first; what the
  libraries hand back (random words, return codes, events) is input of the model.
  \<^verbatim>\<open>ESP_LOGx\<close> and \<^verbatim>\<open>printf\<close> only write to the console and are left out.
\<close>

type_synonym u8 = "8 word"
type_synonym u32 = "32 word"
type_synonym u64 = "64 word"

section \<open>Random Source and Entropy Sampler\<close>

text \<open>
  \<^verbatim>\<open>esp_random()\<close> reads the hardware generator. The words it will deliver are the
  function \<open>src\<close>; the state is the number of words read so far.
\<close>

definition esp_random :: "(nat \<Rightarrow> u32) \<Rightarrow> nat \<Rightarrow> u32 \<times> nat" where
  "esp_random src n = (src n, Suc n)"

text \<open>
  \<^verbatim>\<open>entropy64 = ((uint64_t)esp_random() << 32) | esp_random();\<close>
  C does not fix the order in which the two operands of \<^verbatim>\<open>|\<close> are evaluated, so which of
  the two calls reads the generator first is the compiler's choice. The choice is a
  parameter: in both cases \<open>a\<close> is the word the left call returns and \<open>b\<close> the word the
  right call returns.
\<close>

datatype eval_order = Left_first | Right_first

definition draw_entropy64 :: "eval_order \<Rightarrow> (nat \<Rightarrow> u32) \<Rightarrow> nat \<Rightarrow> u64 \<times> nat" where
  "draw_entropy64 ord src n =
     (case ord of
        Left_first \<Rightarrow>
          (let (a, n1) = esp_random src n;
               (b, n2) = esp_random src n1
           in (push_bit 32 (ucast a :: u64) OR ucast b, n2))
      | Right_first \<Rightarrow>
          (let (b, n1) = esp_random src n;
               (a, n2) = esp_random src n1
           in (push_bit 32 (ucast a :: u64) OR ucast b, n2)))"

text \<open>The conversion \<^verbatim>\<open>%llu\<close>: the decimal digits of an unsigned value, no leading zero.\<close>

fun dec_digits :: "nat \<Rightarrow> string" where
  "dec_digits n =
     (if n < 10 then [char_of (48 + n)]
      else dec_digits (n div 10) @ [char_of (48 + n mod 10)])"

declare dec_digits.simps [simp del]

text \<open>
  \<^verbatim>\<open>snprintf(buf, n, ...)\<close> stores at most \<open>n - 1\<close> characters and a terminating NUL;
  the model keeps the characters before the NUL.
\<close>

definition snprintf :: "nat \<Rightarrow> string \<Rightarrow> string" where
  "snprintf n s = take (n - 1) s"

definition format_payload :: "u64 \<Rightarrow> string" where
  \<open>format_payload v = ''{"entropy": '' @ dec_digits (unat v) @ ''}''\<close>

text \<open>\<^verbatim>\<open>snprintf(json_payload, sizeof(json_payload), "{\"entropy\": %llu}", entropy64);\<close>\<close>

definition encode_payload :: "u64 \<Rightarrow> string" where
  "encode_payload v = snprintf 64 (format_payload v)"

text \<open>
  The collector's side of the message format, used to state the round trip: the numeric
  field is what stands between the fixed prefix and the closing brace, read as decimal.
\<close>

definition is_digit :: "char \<Rightarrow> bool" where
  "is_digit c = (48 \<le> (of_char c :: nat) \<and> (of_char c :: nat) \<le> 57)"

definition digit_val :: "char \<Rightarrow> nat" where
  "digit_val c = of_char c - 48"

definition parse_dec :: "string \<Rightarrow> nat option" where
  "parse_dec ds =
     (if ds \<noteq> [] \<and> list_all is_digit ds
      then Some (foldl (\<lambda>acc c. 10 * acc + digit_val c) 0 ds) else None)"

definition decode_payload :: "string \<Rightarrow> nat option" where
  \<open>decode_payload s =
     (if take 12 s = ''{"entropy": '' \<and> 12 < length s \<and> last s = CHR ''}''
      then parse_dec (butlast (drop 12 s)) else None)\<close>

section \<open>Interval Scheduler\<close>

definition UINT32_MAX :: u32 where
  "UINT32_MAX = 0xFFFFFFFF"

definition AVERAGE_DELAY_MINUTES :: int where
  "AVERAGE_DELAY_MINUTES = 60"

fun bit_length :: "nat \<Rightarrow> nat" where
  "bit_length n = (if n = 0 then 0 else Suc (bit_length (n div 2)))"

declare bit_length.simps [simp del]

text \<open>
  \<^verbatim>\<open>(float)x\<close> for a 32-bit unsigned \<open>x\<close>: the nearest value with a 24-bit significand,
  ties to the even significand. The result is exact, so the float is given by its value.
\<close>

definition float_of_u32 :: "u32 \<Rightarrow> real" where
  "float_of_u32 x =
     (let n = unat x;
          e = bit_length n - 24;
          q = n div 2 ^ e;
          r = n mod 2 ^ e
      in if 2 ^ e < 2 * r \<or> (2 * r = 2 ^ e \<and> odd q)
         then real ((q + 1) * 2 ^ e) else real (q * 2 ^ e))"

text \<open>
  \<^verbatim>\<open>float U = (float)esp_random() / UINT32_MAX;\<close>
  The divisor is converted to float as well and becomes \<open>2 ^ 32\<close>; dividing a float by a
  power of two is exact in this range, so \<open>U\<close> is modelled without error.
\<close>

definition poisson_U :: "u32 \<Rightarrow> real" where
  "poisson_U x = float_of_u32 x / float_of_u32 UINT32_MAX"

text \<open>
  \<^verbatim>\<open>(uint32_t)f\<close>: the fractional part is discarded; the conversion is undefined
  (\<open>None\<close>) when the integral part is not a value of the type.
\<close>

definition uint32_of_float :: "real \<Rightarrow> u32 option" where
  "uint32_of_float x =
     (let i = (if 0 \<le> x then \<lfloor>x\<rfloor> else \<lceil>x\<rceil>)
      in if 0 \<le> i \<and> i < 2 ^ 32 then Some (word_of_int i) else None)"

text \<open>
  \<^verbatim>\<open>float delay_minutes = -AVERAGE_DELAY_MINUTES * log(U);\<close>
  \<^verbatim>\<open>return (uint32_t)(delay_minutes * 60 * 1000 / portTICK_PERIOD_MS);\<close>
  For \<open>U = 0\<close> the library's \<^verbatim>\<open>log\<close> returns minus infinity, \<^verbatim>\<open>delay_minutes\<close> is plus
  infinity and its conversion to \<^verbatim>\<open>uint32_t\<close> is undefined. For \<open>U > 0\<close> the arithmetic
  is carried out in the reals: the rounding of \<^verbatim>\<open>log\<close> and of the float operations is
  not modelled. \<^verbatim>\<open>portTICK_PERIOD_MS\<close> comes from the FreeRTOS configuration and is a
  parameter; were it 0, the quotient would be infinite or not a number and the conversion
  undefined again.
\<close>

definition generate_poisson_delay :: "nat \<Rightarrow> u32 \<Rightarrow> u32 option" where
  "generate_poisson_delay portTICK_PERIOD_MS x =
     (let U = poisson_U x
      in if U = 0 \<or> portTICK_PERIOD_MS = 0 then None
         else let delay_minutes = - real_of_int AVERAGE_DELAY_MINUTES * ln U
              in uint32_of_float (delay_minutes * 60 * 1000 / real portTICK_PERIOD_MS))"

section \<open>Delivery Session\<close>

definition MQTT_TOPIC :: string where
  "MQTT_TOPIC = ''entropy/zero''"

text \<open>
  Calls to the MQTT client library. A publish carries topic, payload, length, QoS and
  retain flag as the source passes them.
\<close>

datatype mqtt_call =
    esp_mqtt_client_init
  | esp_mqtt_client_register_event
  | esp_mqtt_client_start
  | esp_mqtt_client_publish string string nat nat nat
  | esp_mqtt_client_stop
  | esp_mqtt_client_destroy

text \<open>
  The events the client delivers to the handler. \<open>MQTT_EVENT_CONNECTED\<close> carries the value
  that \<^verbatim>\<open>esp_mqtt_client_publish\<close> returns when the handler calls it for this event;
  \<open>MQTT_EVENT_OTHER\<close> stands for every event id the \<^verbatim>\<open>switch\<close> has no case for.
\<close>

datatype mqtt_event =
    MQTT_EVENT_CONNECTED int
  | MQTT_EVENT_PUBLISHED
  | MQTT_EVENT_DISCONNECTED
  | MQTT_EVENT_ERROR
  | MQTT_EVENT_OTHER

text \<open>The events on which the handler publishes, used to count the publish calls.\<close>

definition is_connected :: "mqtt_event \<Rightarrow> bool" where
  "is_connected e = (case e of MQTT_EVENT_CONNECTED _ \<Rightarrow> True | _ \<Rightarrow> False)"

text \<open>The globals of the report task, and the position of the Random Source.\<close>

record report_state =
  rng_pos :: nat
  entropy64 :: u64
  json_payload :: string
  MQTT_DISCONNECT_FLAG :: bool
  mqtt_calls :: "mqtt_call list"

text \<open>\<^verbatim>\<open>esp_restart()\<close> does not return: the handler either leaves a state or restarts.\<close>

datatype handled = Handled report_state | esp_restart

definition mqtt_event_handler :: "mqtt_event \<Rightarrow> report_state \<Rightarrow> handled" where
  "mqtt_event_handler event s =
     (case event of
        MQTT_EVENT_CONNECTED msg_id \<Rightarrow>
          (let s1 = s\<lparr>mqtt_calls := mqtt_calls s
                       @ [esp_mqtt_client_publish MQTT_TOPIC (json_payload s) 0 1 0]\<rparr>
           in Handled (if msg_id < 0 then s1\<lparr>MQTT_DISCONNECT_FLAG := True\<rparr> else s1))
      | MQTT_EVENT_PUBLISHED \<Rightarrow> Handled (s\<lparr>MQTT_DISCONNECT_FLAG := True\<rparr>)
      | MQTT_EVENT_DISCONNECTED \<Rightarrow> Handled (s\<lparr>MQTT_DISCONNECT_FLAG := True\<rparr>)
      | MQTT_EVENT_ERROR \<Rightarrow> esp_restart
      | MQTT_EVENT_OTHER \<Rightarrow> Handled s)"

text \<open>A batch of events, handled in the order of arrival; a restart ends it.\<close>

fun deliver :: "mqtt_event list \<Rightarrow> report_state \<Rightarrow> handled" where
  "deliver [] s = Handled s"
| "deliver (e # es) s =
     (case mqtt_event_handler e s of Handled s' \<Rightarrow> deliver es s' | esp_restart \<Rightarrow> esp_restart)"

text \<open>
  What one call of \<^verbatim>\<open>send_data\<close> comes to: it returns, the process restarts, or the
  events known to the model are used up and the loop is still polling.
  \<open>Undefined_behaviour\<close> is the cycle whose delay has no defined value.
\<close>

datatype outcome =
    Returned report_state
  | Restarted
  | Polling report_state
  | Undefined_behaviour

text \<open>
  \<^verbatim>\<open>while(1) { vTaskDelay(...); if (MQTT_DISCONNECT_FLAG) { stop; destroy; flag = false; return; } }\<close>
  The handler runs on the client's own task, so events arrive between the statements of
  the loop. Each element of the list is one round: the events delivered up to the next
  test of the flag, while the loop sleeps. \<open>late\<close> are the events delivered after the
  test that finds the flag set and before \<^verbatim>\<open>esp_mqtt_client_stop\<close> has ended the client's
  task; after that no event arrives.
\<close>

fun wait_loop :: "mqtt_event list \<Rightarrow> mqtt_event list list \<Rightarrow> report_state \<Rightarrow> outcome" where
  "wait_loop late [] s = Polling s"
| "wait_loop late (evs # rounds) s =
     (case deliver evs s of
        esp_restart \<Rightarrow> Restarted
      | Handled s1 \<Rightarrow>
          if MQTT_DISCONNECT_FLAG s1
          then (case deliver late (s1\<lparr>mqtt_calls := mqtt_calls s1 @ [esp_mqtt_client_stop]\<rparr>) of
                  esp_restart \<Rightarrow> Restarted
                | Handled s2 \<Rightarrow>
                    Returned (s2\<lparr>mqtt_calls := mqtt_calls s2 @ [esp_mqtt_client_destroy],
                                 MQTT_DISCONNECT_FLAG := False\<rparr>))
          else wait_loop late rounds s1)"

text \<open>
  What the libraries answer in one cycle: whether \<^verbatim>\<open>esp_mqtt_client_init\<close> returns a
  client, whether \<^verbatim>\<open>esp_mqtt_client_start\<close> returns \<^verbatim>\<open>ESP_OK\<close>, and the events.
\<close>

record cycle_env =
  client_created :: bool
  client_started :: bool
  rounds :: "mqtt_event list list"
  late :: "mqtt_event list"

definition send_data :: "cycle_env \<Rightarrow> report_state \<Rightarrow> outcome" where
  "send_data env s =
     (let s1 = s\<lparr>mqtt_calls := mqtt_calls s
                  @ [esp_mqtt_client_init, esp_mqtt_client_register_event]\<rparr>
      in if \<not> client_created env then Returned s1
         else let s2 = s1\<lparr>mqtt_calls := mqtt_calls s1 @ [esp_mqtt_client_start]\<rparr>
              in if \<not> client_started env then Returned s2
                 else wait_loop (late env) (rounds env) s2)"

section \<open>Report Loop\<close>

text \<open>
  One pass of the body of \<^verbatim>\<open>report_entropy\<close>: the delay (\<^verbatim>\<open>vTaskDelay\<close> only lets
  time pass), the sample, the payload, the delivery.
\<close>

definition report_cycle ::
  "eval_order \<Rightarrow> (nat \<Rightarrow> u32) \<Rightarrow> nat \<Rightarrow> cycle_env \<Rightarrow> report_state \<Rightarrow> outcome" where
  "report_cycle ord src portTICK_PERIOD_MS env s =
     (let (x, n1) = esp_random src (rng_pos s)
      in case generate_poisson_delay portTICK_PERIOD_MS x of
           None \<Rightarrow> Undefined_behaviour
         | Some poisson_delay \<Rightarrow>
             (let (v, n2) = draw_entropy64 ord src n1;
                  s1 = s\<lparr>rng_pos := n2, entropy64 := v, json_payload := encode_payload v\<rparr>
              in send_data env s1))"

text \<open>
  The globals as the static initialisers leave them, after power-up and after every
  restart; the Random Source is at an arbitrary position.
\<close>

definition boot :: "nat \<Rightarrow> report_state" where
  "boot n = \<lparr>rng_pos = n, entropy64 = 0, json_payload = [],
             MQTT_DISCONNECT_FLAG = False, mqtt_calls = []\<rparr>"

text \<open>The states in which the \<^verbatim>\<open>while (1)\<close> of \<^verbatim>\<open>report_entropy\<close> begins a cycle.\<close>

inductive cycle_start :: "eval_order \<Rightarrow> (nat \<Rightarrow> u32) \<Rightarrow> nat \<Rightarrow> report_state \<Rightarrow> bool"
  for ord :: eval_order and src :: "nat \<Rightarrow> u32" and tick :: nat where
  first: "cycle_start ord src tick (boot n)"
| next_cycle: "cycle_start ord src tick s \<Longrightarrow> report_cycle ord src tick env s = Returned s'
     \<Longrightarrow> cycle_start ord src tick s'"

section \<open>Connectivity Manager and Provisioning Listener\<close>

definition CONNECTED_BIT :: u32 where
  "CONNECTED_BIT = 1"

definition ESPTOUCH_DONE_BIT :: u32 where
  "ESPTOUCH_DONE_BIT = 2"

text \<open>Calls to the radio stack and to the capture library.\<close>

datatype wifi_call =
    esp_wifi_connect
  | esp_wifi_disconnect
  | esp_wifi_set_config "u8 list" "u8 list"
  | esp_smartconfig_set_type
  | esp_smartconfig_start
  | esp_smartconfig_stop

text \<open>The event group, the FreeRTOS tasks by name, and the calls made so far.\<close>

record conn_state =
  s_wifi_event_group :: u32
  task_list :: "string list"
  wifi_calls :: "wifi_call list"

text \<open>
  The events \<^verbatim>\<open>event_handler\<close> is registered for. \<open>WIFI_EVENT_STA_START\<close> carries what
  \<^verbatim>\<open>esp_wifi_get_config\<close> answers (whether it returned \<^verbatim>\<open>ESP_OK\<close>, and the stored SSID
  bytes); \<open>SC_EVENT_GOT_SSID_PSWD\<close> carries the captured SSID and password bytes;
  \<open>OTHER_EVENT\<close> stands for every event no branch tests for.
\<close>

datatype wifi_event =
    WIFI_EVENT_STA_START bool "u8 list"
  | WIFI_EVENT_STA_DISCONNECTED
  | IP_EVENT_STA_GOT_IP
  | SC_EVENT_SCAN_DONE
  | SC_EVENT_FOUND_CHANNEL
  | SC_EVENT_GOT_SSID_PSWD "u8 list" "u8 list"
  | SC_EVENT_SEND_ACK_DONE
  | OTHER_EVENT

definition xEventGroupSetBits :: "u32 \<Rightarrow> conn_state \<Rightarrow> conn_state" where
  "xEventGroupSetBits uxBitsToSet s =
     s\<lparr>s_wifi_event_group := s_wifi_event_group s OR uxBitsToSet\<rparr>"

definition xEventGroupClearBits :: "u32 \<Rightarrow> conn_state \<Rightarrow> conn_state" where
  "xEventGroupClearBits uxBitsToClear s =
     s\<lparr>s_wifi_event_group := s_wifi_event_group s AND NOT uxBitsToClear\<rparr>"

text \<open>
  \<^verbatim>\<open>xEventGroupWaitBits\<close> with an unbounded timeout: \<open>None\<close> while the caller stays
  blocked; otherwise the value of the group when the wait was satisfied and the state
  with the waited-for bits cleared if \<open>xClearOnExit\<close> is set.
\<close>

definition xEventGroupWaitBits ::
  "u32 \<Rightarrow> bool \<Rightarrow> bool \<Rightarrow> conn_state \<Rightarrow> (u32 \<times> conn_state) option" where
  "xEventGroupWaitBits uxBitsToWaitFor xClearOnExit xWaitForAllBits s =
     (let g = s_wifi_event_group s;
          met = (if xWaitForAllBits then g AND uxBitsToWaitFor = uxBitsToWaitFor
                 else g AND uxBitsToWaitFor \<noteq> 0)
      in if met
         then Some (g, if xClearOnExit then xEventGroupClearBits uxBitsToWaitFor s else s)
         else None)"

text \<open>The handle of a task is its position in the task list; \<open>None\<close> is \<^verbatim>\<open>NULL\<close>.\<close>

definition xTaskGetHandle :: "string \<Rightarrow> conn_state \<Rightarrow> nat option" where
  "xTaskGetHandle pcNameToQuery s =
     (if pcNameToQuery \<in> set (task_list s)
      then Some (length (takeWhile (\<lambda>n. n \<noteq> pcNameToQuery) (task_list s))) else None)"

definition xTaskCreate :: "string \<Rightarrow> conn_state \<Rightarrow> conn_state" where
  "xTaskCreate pcName s = s\<lparr>task_list := task_list s @ [pcName]\<rparr>"

definition vTaskDelete :: "string \<Rightarrow> conn_state \<Rightarrow> conn_state" where
  "vTaskDelete pcName s = s\<lparr>task_list := remove1 pcName (task_list s)\<rparr>"

definition record_call :: "wifi_call \<Rightarrow> conn_state \<Rightarrow> conn_state" where
  "record_call c s = s\<lparr>wifi_calls := wifi_calls s @ [c]\<rparr>"

definition strlen :: "u8 list \<Rightarrow> nat" where
  "strlen bs = length (takeWhile (\<lambda>b. b \<noteq> 0) bs)"

text \<open>
  \<^verbatim>\<open>event_handler\<close>, branch by branch. The two \<^verbatim>\<open>memcpy\<close> into the 32-byte SSID and
  64-byte password fields of the configuration are \<open>take 32\<close> and \<open>take 64\<close>; the
  optional target address and the reserved data are only printed or compiled out.
\<close>

definition event_handler :: "wifi_event \<Rightarrow> conn_state \<Rightarrow> conn_state" where
  "event_handler ev s =
     (case ev of
        WIFI_EVENT_STA_START err_ok ssid \<Rightarrow>
          if err_ok \<and> 0 < strlen ssid then record_call esp_wifi_connect s
          else if xTaskGetHandle ''sc_task'' s = None then xTaskCreate ''sc_task'' s
          else s
      | WIFI_EVENT_STA_DISCONNECTED \<Rightarrow>
          record_call esp_wifi_connect (xEventGroupClearBits CONNECTED_BIT s)
      | IP_EVENT_STA_GOT_IP \<Rightarrow>
          (let s1 = xEventGroupSetBits CONNECTED_BIT s
           in if xTaskGetHandle ''report_task'' s1 = None then xTaskCreate ''report_task'' s1
              else s1)
      | SC_EVENT_SCAN_DONE \<Rightarrow> s
      | SC_EVENT_FOUND_CHANNEL \<Rightarrow> s
      | SC_EVENT_GOT_SSID_PSWD ssid password \<Rightarrow>
          record_call esp_wifi_connect
            (record_call (esp_wifi_set_config (take 32 ssid) (take 64 password))
               (record_call esp_wifi_disconnect s))
      | SC_EVENT_SEND_ACK_DONE \<Rightarrow> xEventGroupSetBits ESPTOUCH_DONE_BIT s
      | OTHER_EVENT \<Rightarrow> s)"

text \<open>
  The \<^verbatim>\<open>while (1)\<close> of \<^verbatim>\<open>smartconfig_task\<close>, run until the task blocks in
  \<^verbatim>\<open>xEventGroupWaitBits(s_wifi_event_group, CONNECTED_BIT | ESPTOUCH_DONE_BIT, true, false, portMAX_DELAY)\<close>
  or deletes itself. The branch on \<^verbatim>\<open>uxBits & CONNECTED_BIT\<close> only logs.
\<close>

function smartconfig_loop :: "conn_state \<Rightarrow> conn_state" where
  "smartconfig_loop s =
     (case xEventGroupWaitBits (CONNECTED_BIT OR ESPTOUCH_DONE_BIT) True False s of
        None \<Rightarrow> s
      | Some (uxBits, s1) \<Rightarrow>
          if uxBits AND ESPTOUCH_DONE_BIT \<noteq> 0
          then vTaskDelete ''sc_task'' (record_call esp_smartconfig_stop s1)
          else smartconfig_loop s1)"
  by pat_completeness auto
termination
proof (relation "measure (\<lambda>s. if s_wifi_event_group s AND (CONNECTED_BIT OR ESPTOUCH_DONE_BIT) = 0
                               then 0 else 1)")
  show "wf (measure (\<lambda>s. if s_wifi_event_group s AND (CONNECTED_BIT OR ESPTOUCH_DONE_BIT) = 0
                          then 0 else (1::nat)))"
    by simp
next
  fix s x2 uxBits s1
  assume w: "xEventGroupWaitBits (CONNECTED_BIT OR ESPTOUCH_DONE_BIT) True False s = Some x2"
    and x: "(uxBits, s1) = x2"
  let ?m = "CONNECTED_BIT OR ESPTOUCH_DONE_BIT"
  from w x have a: "s_wifi_event_group s AND ?m \<noteq> 0"
    and b: "s1 = xEventGroupClearBits ?m s"
    by (auto simp add: xEventGroupWaitBits_def Let_def split: if_splits)
  have "(s_wifi_event_group s AND NOT ?m) AND ?m = 0"
    by (rule bit_word_eqI) (auto simp add: bit_simps)
  with a b show "(s1, s) \<in> measure (\<lambda>s. if s_wifi_event_group s AND ?m = 0 then 0 else 1)"
    by (simp add: xEventGroupClearBits_def)
qed

declare smartconfig_loop.simps [simp del]

text \<open>\<^verbatim>\<open>smartconfig_task\<close> from its first statement.\<close>

definition smartconfig_task :: "conn_state \<Rightarrow> conn_state" where
  "smartconfig_task s =
     smartconfig_loop (record_call esp_smartconfig_start (record_call esp_smartconfig_set_type s))"

text \<open>
  One event: the handler runs on the event loop's task, then the listener runs if it can.
  A listener the handler has just created starts from its first statement; one that
  existed before resumes its wait.
\<close>

definition dispatch :: "wifi_event \<Rightarrow> conn_state \<Rightarrow> conn_state" where
  "dispatch ev s =
     (let s1 = event_handler ev s
      in if ''sc_task'' \<in> set (task_list s1)
         then (if ''sc_task'' \<in> set (task_list s) then smartconfig_loop s1
               else smartconfig_task s1)
         else s1)"

fun run_events :: "wifi_event list \<Rightarrow> conn_state \<Rightarrow> conn_state" where
  "run_events [] s = s"
| "run_events (ev # evs) s = run_events evs (dispatch ev s)"

text \<open>The state \<^verbatim>\<open>initialize_wifi\<close> leaves: a fresh event group, no task of the firmware's.\<close>

definition initialize_wifi :: conn_state where
  "initialize_wifi = \<lparr>s_wifi_event_group = 0, task_list = [], wifi_calls = []\<rparr>"

text \<open>The system is provisioning while the listener task exists.\<close>

definition provisioning :: "conn_state \<Rightarrow> bool" where
  "provisioning s = (''sc_task'' \<in> set (task_list s))"

section \<open>Theorems\<close>

subsection \<open>Entropy Sampler\<close>

lemma concat_high:
  "ucast (drop_bit 32 (push_bit 32 (ucast a :: u64) OR ucast (b :: u32))) = (a :: u32)"
  by (rule bit_word_eqI) (auto simp add: bit_simps dest: bit_imp_le_length)

lemma concat_low:
  "ucast (push_bit 32 (ucast (a :: u32) :: u64) OR ucast b) = (b :: u32)"
  by (rule bit_word_eqI) (auto simp add: bit_simps)

lemma draw_entropy64_left:
  "draw_entropy64 Left_first src n =
     (push_bit 32 (ucast (src n) :: u64) OR ucast (src (n + 1)), n + 2)"
  by (simp add: draw_entropy64_def esp_random_def)

lemma draw_entropy64_right:
  "draw_entropy64 Right_first src n =
     (push_bit 32 (ucast (src (n + 1)) :: u64) OR ucast (src n), n + 2)"
  by (simp add: draw_entropy64_def esp_random_def)

lemma draw_entropy64_pos: "snd (draw_entropy64 ord src n) = Suc (Suc n)"
  by (cases ord) (simp_all add: draw_entropy64_left draw_entropy64_right)

text \<open>
  Claim C8, as the code has it. One sample reads exactly two words from the Random Source
  (the read position advances by two), whichever call is made first. The word the left
  call returns is the high half of the 64-bit value and the word the right call returns
  is its low half: evaluated left to right, the first word read is the high half and the
  second the low half; evaluated right to left, the first word read is the low half and
  the second the high half.
\<close>

theorem entropy64_two_draws:
  "snd (draw_entropy64 ord src n) = n + 2
   \<and> ucast (drop_bit 32 (fst (draw_entropy64 Left_first src n))) = src n
   \<and> ucast (fst (draw_entropy64 Left_first src n)) = src (n + 1)
   \<and> ucast (drop_bit 32 (fst (draw_entropy64 Right_first src n))) = src (n + 1)
   \<and> ucast (fst (draw_entropy64 Right_first src n)) = src n"
  unfolding draw_entropy64_pos draw_entropy64_left draw_entropy64_right fst_conv
  using concat_high [of "src n" "src (n + 1)"] concat_low [of "src n" "src (n + 1)"]
    concat_high [of "src (n + 1)" "src n"] concat_low [of "src (n + 1)" "src n"]
  by simp

theorem entropy64_two_draws_witness:
  "fst (draw_entropy64 Left_first (\<lambda>i. if i = 0 then 0xDEADBEEF else 0x01234567) 0)
     = 0xDEADBEEF01234567
   \<and> snd (draw_entropy64 Left_first (\<lambda>i. if i = 0 then 0xDEADBEEF else 0x01234567) 0) = 2"
  using entropy64_two_draws [of Left_first "\<lambda>i. if i = 0 then 0xDEADBEEF else 0x01234567" 0]
  by (simp add: draw_entropy64_left)

text \<open>
  The claim as stated, that the first draw is the high half, fails for the other order of
  evaluation C allows: there the first word read, \<open>0xDEADBEEF\<close>, is the low half.
\<close>

theorem first_draw_high_counterexample:
  "fst (draw_entropy64 Right_first (\<lambda>i. if i = 0 then 0xDEADBEEF else 0x01234567) 0)
     = 0x01234567DEADBEEF
   \<and> ucast (drop_bit 32
        (fst (draw_entropy64 Right_first (\<lambda>i. if i = 0 then 0xDEADBEEF else 0x01234567) 0)))
     \<noteq> (0xDEADBEEF :: u32)"
  by (simp add: draw_entropy64_right)

lemma dec_digits_ne: "dec_digits n \<noteq> []"
  by (subst dec_digits.simps) simp

lemma digit_char: "d < 10 \<Longrightarrow> is_digit (char_of (48 + d)) \<and> digit_val (char_of (48 + d)) = d"
  by (simp add: is_digit_def digit_val_def)

lemma dec_digits_all: "list_all is_digit (dec_digits n)"
proof (induction n rule: dec_digits.induct)
  case (1 n)
  show ?case
  proof (cases "n < 10")
    case True
    then show ?thesis by (subst dec_digits.simps) (simp add: digit_char)
  next
    case False
    have "n mod 10 < 10" by simp
    with False 1 show ?thesis by (subst dec_digits.simps) (simp add: digit_char)
  qed
qed

lemma dec_digits_val: "foldl (\<lambda>acc c. 10 * acc + digit_val c) 0 (dec_digits n) = n"
proof (induction n rule: dec_digits.induct)
  case (1 n)
  show ?case
  proof (cases "n < 10")
    case True
    then show ?thesis by (subst dec_digits.simps) (simp add: digit_char)
  next
    case False
    have "n mod 10 < 10" by simp
    with False 1 show ?thesis by (subst dec_digits.simps) (simp add: digit_char)
  qed
qed

lemma parse_dec_digits: "parse_dec (dec_digits n) = Some n"
  by (simp add: parse_dec_def dec_digits_ne dec_digits_all dec_digits_val)

lemma dec_digits_length: "0 < k \<Longrightarrow> n < 10 ^ k \<Longrightarrow> length (dec_digits n) \<le> k"
proof (induction n arbitrary: k rule: dec_digits.induct)
  case (1 n)
  show ?case
  proof (cases "n < 10")
    case True
    with 1 show ?thesis by (subst dec_digits.simps) simp
  next
    case False
    with "1.prems" obtain j where k: "k = Suc j" "0 < j"
      by (cases k; cases "k - 1") auto
    with "1.prems" have "n div 10 < 10 ^ j"
      by (simp add: less_mult_imp_div_less mult.commute)
    with "1.IH" [OF False k(2)] have "length (dec_digits (n div 10)) \<le> j" by simp
    with False k show ?thesis by (subst dec_digits.simps) simp
  qed
qed

lemma dec_digits_u64: "length (dec_digits (unat (v :: u64))) \<le> 20"
proof -
  have "unat v < 2 ^ 64" using unsigned_less [of v] by simp
  also have "(2::nat) ^ 64 < 10 ^ 20" by simp
  finally show ?thesis by (intro dec_digits_length) simp_all
qed

lemma format_payload_length: "length (format_payload v) \<le> 33"
  using dec_digits_u64 [of v] by (simp add: format_payload_def)

lemma encode_payload_eq: "encode_payload v = format_payload v"
  using format_payload_length [of v] by (simp add: encode_payload_def snprintf_def)

lemma decode_format: "decode_payload (format_payload v) = Some (unat v)"
  by (simp add: decode_payload_def format_payload_def parse_dec_digits)

text \<open>
  Claim C7. For every 64-bit value the payload is the fixed prefix, the decimal digits of
  the value and the closing brace, never cut short by the buffer; the digits read back as
  the value, and so does the numeric field of the payload; with its terminator the payload
  takes at most 35 bytes, which is within the 64-byte buffer and the 63-byte limit of the
  message format.
\<close>

theorem payload_round_trip:
  \<open>encode_payload v = ''{"entropy": '' @ dec_digits (unat v) @ ''}''
   \<and> parse_dec (dec_digits (unat v)) = Some (unat v)
   \<and> decode_payload (encode_payload v) = Some (unat v)
   \<and> length (encode_payload v) + 1 \<le> 35
   \<and> length (encode_payload v) + 1 \<le> 64
   \<and> length (encode_payload v) + 1 \<le> 63\<close>
proof -
  have "length (encode_payload v) \<le> 33"
    by (simp add: encode_payload_eq format_payload_length)
  then show ?thesis
    by (simp add: encode_payload_eq decode_format parse_dec_digits) (simp add: format_payload_def)
qed

lemma digit_chars:
  "char_of (48 :: nat) = CHR ''0''" "char_of (49 :: nat) = CHR ''1''"
  "char_of (50 :: nat) = CHR ''2''" "char_of (51 :: nat) = CHR ''3''"
  "char_of (52 :: nat) = CHR ''4''" "char_of (53 :: nat) = CHR ''5''"
  "char_of (54 :: nat) = CHR ''6''" "char_of (55 :: nat) = CHR ''7''"
  "char_of (56 :: nat) = CHR ''8''" "char_of (57 :: nat) = CHR ''9''"
  by code_simp+

theorem payload_round_trip_witness:
  \<open>encode_payload 18446744073709551615 = ''{"entropy": 18446744073709551615}''
   \<and> decode_payload ''{"entropy": 18446744073709551615}'' = Some 18446744073709551615
   \<and> length ''{"entropy": 18446744073709551615}'' + 1 = (34 :: nat)\<close>
proof -
  have u: "unat (18446744073709551615 :: u64) = 18446744073709551615" by simp
  have dd: "dec_digits 18446744073709551615 = ''18446744073709551615''"
    by (simp add: dec_digits.simps digit_chars)
  note rt = payload_round_trip [of 18446744073709551615, unfolded u dd]
  from rt have e: \<open>encode_payload 18446744073709551615 = ''{"entropy": 18446744073709551615}''\<close>
    by simp
  from rt have "decode_payload (encode_payload 18446744073709551615) = Some 18446744073709551615"
    by (elim conjE)
  then have \<open>decode_payload ''{"entropy": 18446744073709551615}'' = Some 18446744073709551615\<close>
    unfolding e .
  with e show ?thesis by simp
qed

subsection \<open>Interval Scheduler\<close>

lemma bit_length_0: "bit_length 0 = 0"
  by (subst bit_length.simps) simp

lemma bit_length_pow: "2 ^ k \<le> n \<Longrightarrow> n < 2 ^ Suc k \<Longrightarrow> bit_length n = Suc k"
proof (induction k arbitrary: n)
  case 0
  then have "n = 1" by simp
  then show ?case by (subst bit_length.simps) (simp add: bit_length_0)
next
  case (Suc k)
  then have "2 ^ k \<le> n div 2" "n div 2 < 2 ^ Suc k" by auto
  then have "bit_length (n div 2) = Suc k" by (rule Suc.IH)
  moreover from Suc.prems have "n \<noteq> 0" by auto
  ultimately show ?case by (subst bit_length.simps) simp
qed

lemma bit_length_max: "bit_length 4294967295 = 32"
  using bit_length_pow [of 31 4294967295] by simp

lemma float_of_max: "float_of_u32 UINT32_MAX = 4294967296"
  by (simp add: float_of_u32_def UINT32_MAX_def bit_length_max)

lemma delay_max_draw: "0 < tick \<Longrightarrow> generate_poisson_delay tick UINT32_MAX = Some 0"
  by (simp add: generate_poisson_delay_def poisson_U_def float_of_max uint32_of_float_def)

lemma bit_length_upper: "n < 2 ^ bit_length n"
proof (induction n rule: bit_length.induct)
  case (1 n)
  show ?case
  proof (cases "n = 0")
    case True
    then show ?thesis by simp
  next
    case False
    with 1 have "n div 2 < 2 ^ bit_length (n div 2)" by simp
    then have "n < 2 * 2 ^ bit_length (n div 2)" by linarith
    with False show ?thesis by (subst bit_length.simps) simp
  qed
qed

lemma bit_length_lower: "n \<noteq> 0 \<Longrightarrow> 2 ^ (bit_length n - 1) \<le> n"
proof (induction n rule: bit_length.induct)
  case (1 n)
  show ?case
  proof (cases "n div 2 = 0")
    case True
    with "1.prems" have "n = 1" by (simp add: div_eq_0_iff)
    then show ?thesis by (subst bit_length.simps) (simp add: bit_length_0)
  next
    case False
    with 1 have "2 ^ (bit_length (n div 2) - 1) \<le> n div 2" by simp
    moreover from False have "bit_length (n div 2) \<noteq> 0"
      by (subst bit_length.simps) simp
    ultimately have "2 ^ bit_length (n div 2) \<le> 2 * (n div 2)"
      by (cases "bit_length (n div 2)") simp_all
    then have "2 ^ bit_length (n div 2) \<le> n" by linarith
    with "1.prems" show ?thesis by (subst bit_length.simps) simp
  qed
qed

lemma bit_length_le: "n < 2 ^ k \<Longrightarrow> bit_length n \<le> k"
proof (rule ccontr)
  assume n: "n < 2 ^ k" and b: "\<not> bit_length n \<le> k"
  then have k: "k \<le> bit_length n - 1" by simp
  from b have "n \<noteq> 0" by (cases "n = 0") (simp_all add: bit_length_0)
  then have "2 ^ (bit_length n - 1) \<le> n" by (intro bit_length_lower)
  moreover from k have "(2::nat) ^ k \<le> 2 ^ (bit_length n - 1)" by simp
  ultimately show False using n by linarith
qed

lemma float_of_u32_cases:
  "float_of_u32 x = real (unat x div 2 ^ (bit_length (unat x) - 24) * 2 ^ (bit_length (unat x) - 24))
   \<or> float_of_u32 x = real ((unat x div 2 ^ (bit_length (unat x) - 24) + 1) * 2 ^ (bit_length (unat x) - 24))"
  by (simp add: float_of_u32_def Let_def)

lemma float_of_u32_range:
  assumes "x \<noteq> 0"
  shows "1 \<le> float_of_u32 x \<and> float_of_u32 x \<le> 2 ^ 32"
proof -
  let ?n = "unat x"
  let ?b = "bit_length ?n"
  let ?e = "?b - 24"
  let ?q = "?n div 2 ^ ?e"
  from assms have n0: "?n \<noteq> 0" by (simp add: unat_eq_0)
  have "?n < 2 ^ 32" using unsigned_less [of x] by simp
  then have b32: "?b \<le> 32" by (rule bit_length_le)
  from n0 have "2 ^ (?b - 1) \<le> ?n" by (rule bit_length_lower)
  moreover have "(2::nat) ^ ?e \<le> 2 ^ (?b - 1)" by simp
  ultimately have "2 ^ ?e \<le> ?n" by linarith
  then have q1: "1 \<le> ?q" by (simp add: div_greater_zero_iff Suc_le_eq)
  have "?n < 2 ^ ?b" by (rule bit_length_upper)
  also have "(2::nat) ^ ?b = 2 ^ (?b - ?e) * 2 ^ ?e"
    by (simp flip: power_add)
  finally have "?q < 2 ^ (?b - ?e)"
    by (simp add: less_mult_imp_div_less)
  then have "?q + 1 \<le> 2 ^ (?b - ?e)" by simp
  then have "(?q + 1) * 2 ^ ?e \<le> 2 ^ (?b - ?e) * 2 ^ ?e" by (rule mult_le_mono1)
  also have "\<dots> = 2 ^ ?b" by (simp flip: power_add)
  also from b32 have "\<dots> \<le> (2::nat) ^ 32" by (intro power_increasing) simp_all
  finally have up: "(?q + 1) * 2 ^ ?e \<le> 2 ^ 32" .
  then have up': "?q * 2 ^ ?e \<le> 2 ^ 32" by simp
  from q1 have lo: "1 \<le> ?q * 2 ^ ?e" "1 \<le> (?q + 1) * 2 ^ ?e"
    by (simp_all add: Suc_le_eq)
  from up have "real ((?q + 1) * 2 ^ ?e) \<le> real (2 ^ 32)" by (rule of_nat_mono)
  moreover from up' have "real (?q * 2 ^ ?e) \<le> real (2 ^ 32)" by (rule of_nat_mono)
  moreover from lo have "real 1 \<le> real (?q * 2 ^ ?e)" "real 1 \<le> real ((?q + 1) * 2 ^ ?e)"
    by (simp_all only: of_nat_le_iff)
  ultimately show ?thesis
    using float_of_u32_cases [of x] by auto
qed

lemma float_of_zero: "float_of_u32 0 = 0"
  by (simp add: float_of_u32_def bit_length_0)

lemma poisson_U_zero: "poisson_U 0 = 0"
  by (simp add: poisson_U_def float_of_zero)

lemma poisson_U_range:
  assumes "x \<noteq> 0"
  shows "1 / 2 ^ 32 \<le> poisson_U x \<and> poisson_U x \<le> 1"
  using float_of_u32_range [OF assms]
  by (simp add: poisson_U_def float_of_max divide_le_cancel)

lemma uint32_of_float_defined:
  "0 \<le> x \<Longrightarrow> x < 2 ^ 32 \<Longrightarrow> \<exists>d. uint32_of_float x = Some d"
proof -
  assume x: "0 \<le> x" "x < 2 ^ 32"
  then have "0 \<le> \<lfloor>x\<rfloor>" by simp
  moreover from x have "\<lfloor>x\<rfloor> < 2 ^ 32" by (simp add: floor_less_iff)
  ultimately show ?thesis using x by (simp add: uint32_of_float_def)
qed

lemma nonzero_draw_defined:
  assumes "x \<noteq> 0" and "0 < portTICK_PERIOD_MS"
  shows "\<exists>d. generate_poisson_delay portTICK_PERIOD_MS x = Some d"
proof -
  let ?U = "poisson_U x"
  from poisson_U_range [OF assms(1)] have U: "1 / 2 ^ 32 \<le> ?U" "?U \<le> 1" by simp_all
  then have pos: "0 < ?U" by (simp add: less_le_trans [of 0 "1 / 2 ^ 32"])
  with U have le0: "ln ?U \<le> 0" by simp
  have "ln (1 / 2 ^ 32 :: real) \<le> ln ?U"
    using U(1) pos by (subst ln_le_cancel_iff) simp_all
  moreover have "ln (1 / 2 ^ 32 :: real) = - (32 * ln 2)"
    using ln_realpow [of "2 :: real" 32] by (simp add: ln_div)
  moreover have "ln (2::real) < 1" by (rule ln_2_less_1)
  ultimately have ge: "- 32 \<le> ln ?U" by linarith
  define a where "a = - 60 * ln ?U * 60 * 1000"
  from le0 ge have a: "0 \<le> a" "a \<le> 115200000"
    by (simp_all add: a_def)
  from assms(2) have tick: "0 < real portTICK_PERIOD_MS" "1 \<le> real portTICK_PERIOD_MS"
    by simp_all
  from a(1) tick(1) have t0: "0 \<le> a / real portTICK_PERIOD_MS"
    by simp
  from a(1) tick have "a / real portTICK_PERIOD_MS \<le> a"
    by (simp add: divide_le_eq mult_le_cancel_left1)
  with a(2) have t1: "a / real portTICK_PERIOD_MS < 2 ^ 32"
    by simp
  from t0 t1 have "\<exists>d. uint32_of_float (a / real portTICK_PERIOD_MS) = Some d"
    by (rule uint32_of_float_defined)
  with pos assms(2) show ?thesis
    by (simp add: generate_poisson_delay_def Let_def AVERAGE_DELAY_MINUTES_def a_def)
qed
















text \<open>
  Every draw but zero has a defined delay (lemma \<open>nonzero_draw_defined\<close>, in the real
  arithmetic of the model), with \<open>U\<close> between \<open>1 / 2 ^ 32\<close> and 1 inclusive.

  Claim C2 does not hold of the code at the draw 0: there \<open>U\<close> is exactly 0, the
  logarithm has no finite value, and the function has no defined result, so the cycle
  that draws it has none either. At the largest draw \<open>U\<close> is exactly 1.
\<close>

theorem zero_draw_delay_undefined:
  "poisson_U 0 = 0
   \<and> generate_poisson_delay portTICK_PERIOD_MS 0 = None
   \<and> report_cycle ord (\<lambda>_. 0) portTICK_PERIOD_MS env s = Undefined_behaviour
   \<and> poisson_U UINT32_MAX = 1"
  by (simp add: poisson_U_zero generate_poisson_delay_def report_cycle_def esp_random_def)
     (simp add: poisson_U_def float_of_max)

subsection \<open>Delivery Session\<close>

lemma handler_restart_iff:
  "(mqtt_event_handler event s = esp_restart) = (event = MQTT_EVENT_ERROR)"
  by (cases event) (simp_all add: mqtt_event_handler_def Let_def)

lemma deliver_restart_iff:
  "(deliver evs s = esp_restart) = (MQTT_EVENT_ERROR \<in> set evs)"
proof (induction evs arbitrary: s)
  case Nil
  show ?case by simp
next
  case (Cons e es)
  show ?case
  proof (cases "mqtt_event_handler e s")
    case (Handled s')
    with handler_restart_iff [of e s] have "e \<noteq> MQTT_EVENT_ERROR" by auto
    with Handled Cons.IH [of s'] show ?thesis by auto
  next
    case esp_restart
    with handler_restart_iff [of e s] show ?thesis by simp
  qed
qed

text \<open>
  Claim C5. In every state the handler restarts the process exactly for the error event;
  a batch of events leads to a restart exactly when it holds an error event; a polling
  round in which an error event arrives ends in the restart, whatever the state and
  whatever else arrives in the round; and so does an error event that arrives while a
  settled session is being stopped. (\<open>event_handler\<close>, for the Wi-Fi, address and capture
  events, has no restart: it always leaves a state.)
\<close>

theorem protocol_error_restarts:
  "(mqtt_event_handler event s = esp_restart) = (event = MQTT_EVENT_ERROR)
   \<and> (deliver evs s = esp_restart) = (MQTT_EVENT_ERROR \<in> set evs)
   \<and> wait_loop lt ((evs @ MQTT_EVENT_ERROR # evs') # rest) s = Restarted
   \<and> (deliver evs s = Handled s' \<and> MQTT_DISCONNECT_FLAG s' \<longrightarrow>
        wait_loop (lt @ MQTT_EVENT_ERROR # lt') (evs # rest) s = Restarted)"
proof -
  have "deliver (evs @ MQTT_EVENT_ERROR # evs') s = esp_restart"
    by (simp add: deliver_restart_iff)
  then have a: "wait_loop lt ((evs @ MQTT_EVENT_ERROR # evs') # rest) s = Restarted"
    by simp
  have "deliver (lt @ MQTT_EVENT_ERROR # lt') t = esp_restart" for t
    by (simp add: deliver_restart_iff)
  then have b: "wait_loop (lt @ MQTT_EVENT_ERROR # lt') (evs # rest) s = Restarted"
    if "deliver evs s = Handled s'" "MQTT_DISCONNECT_FLAG s'"
    using that by simp
  from a b handler_restart_iff [of event s] deliver_restart_iff [of evs s] show ?thesis
    by blast
qed

theorem protocol_error_restarts_witness:
  "mqtt_event_handler MQTT_EVENT_ERROR (boot 0) = esp_restart
   \<and> mqtt_event_handler MQTT_EVENT_DISCONNECTED (boot 0) \<noteq> esp_restart
   \<and> deliver [MQTT_EVENT_CONNECTED 1, MQTT_EVENT_ERROR] (boot 0) = esp_restart
   \<and> wait_loop [] (([MQTT_EVENT_CONNECTED 1] @ MQTT_EVENT_ERROR # [MQTT_EVENT_PUBLISHED]) # [])
         (boot 0) = Restarted
   \<and> deliver [MQTT_EVENT_DISCONNECTED] (boot 0) = Handled (boot 0\<lparr>MQTT_DISCONNECT_FLAG := True\<rparr>)
   \<and> MQTT_DISCONNECT_FLAG (boot 0\<lparr>MQTT_DISCONNECT_FLAG := True\<rparr>)
   \<and> wait_loop ([] @ MQTT_EVENT_ERROR # []) ([MQTT_EVENT_DISCONNECTED] # []) (boot 0) = Restarted"
proof -
  have d: "deliver [MQTT_EVENT_DISCONNECTED] (boot 0)
             = Handled (boot 0\<lparr>MQTT_DISCONNECT_FLAG := True\<rparr>)"
    by (simp add: mqtt_event_handler_def)
  have f: "MQTT_DISCONNECT_FLAG (boot 0\<lparr>MQTT_DISCONNECT_FLAG := True\<rparr>)"
    by simp
  from protocol_error_restarts [where event = MQTT_EVENT_ERROR and s = "boot 0"
          and evs = "[MQTT_EVENT_CONNECTED 1]" and evs' = "[MQTT_EVENT_PUBLISHED]"
          and rest = "[]" and lt = "[]"]
       protocol_error_restarts [where event = MQTT_EVENT_DISCONNECTED and s = "boot 0"
          and evs = "[MQTT_EVENT_CONNECTED 1, MQTT_EVENT_ERROR]" and evs' = "[]" and rest = "[]"]
       protocol_error_restarts [where s = "boot 0" and evs = "[MQTT_EVENT_DISCONNECTED]"
          and s' = "boot 0\<lparr>MQTT_DISCONNECT_FLAG := True\<rparr>" and lt = "[]" and lt' = "[]"
          and rest = "[]"]
       d f
  show ?thesis by simp
qed

lemma handler_connected:
  "mqtt_event_handler (MQTT_EVENT_CONNECTED msg_id) s =
     Handled (s\<lparr>mqtt_calls := mqtt_calls s
                   @ [esp_mqtt_client_publish MQTT_TOPIC (json_payload s) 0 1 0],
                 MQTT_DISCONNECT_FLAG := (MQTT_DISCONNECT_FLAG s \<or> msg_id < 0)\<rparr>)"
  by (simp add: mqtt_event_handler_def Let_def)

lemma handler_effect:
  assumes "mqtt_event_handler e s = Handled t"
  shows "mqtt_calls t = mqtt_calls s
           @ (if is_connected e then [esp_mqtt_client_publish MQTT_TOPIC (json_payload s) 0 1 0]
              else [])
    \<and> json_payload t = json_payload s
    \<and> (MQTT_DISCONNECT_FLAG s \<longrightarrow> MQTT_DISCONNECT_FLAG t)
    \<and> ((\<exists>m. e = MQTT_EVENT_CONNECTED m \<and> m < 0) \<longrightarrow> MQTT_DISCONNECT_FLAG t)"
  using assms
  by (cases e) (auto simp add: mqtt_event_handler_def is_connected_def Let_def)

lemma deliver_effect:
  "deliver evs s = Handled t \<Longrightarrow>
   mqtt_calls t = mqtt_calls s
       @ replicate (length (filter is_connected evs))
           (esp_mqtt_client_publish MQTT_TOPIC (json_payload s) 0 1 0)
   \<and> json_payload t = json_payload s
   \<and> (MQTT_DISCONNECT_FLAG s \<longrightarrow> MQTT_DISCONNECT_FLAG t)
   \<and> ((\<exists>m. MQTT_EVENT_CONNECTED m \<in> set evs \<and> m < 0) \<longrightarrow> MQTT_DISCONNECT_FLAG t)"
proof (induction evs arbitrary: s)
  case Nil
  then show ?case by simp
next
  case (Cons e es)
  from Cons.prems obtain u where u: "mqtt_event_handler e s = Handled u" "deliver es u = Handled t"
    by (cases "mqtt_event_handler e s") simp_all
  note h = handler_effect [OF u(1)] and i = Cons.IH [OF u(2)]
  from h i have calls: "mqtt_calls t = mqtt_calls s
       @ replicate (length (filter is_connected (e # es)))
           (esp_mqtt_client_publish MQTT_TOPIC (json_payload s) 0 1 0)"
    by (simp add: replicate_app_Cons_same)
  from h i have rest: "json_payload t = json_payload s"
    "MQTT_DISCONNECT_FLAG s \<longrightarrow> MQTT_DISCONNECT_FLAG t"
    "(\<exists>m. MQTT_EVENT_CONNECTED m \<in> set (e # es) \<and> m < 0) \<longrightarrow> MQTT_DISCONNECT_FLAG t"
    by auto
  from calls rest show ?case by blast
qed

lemma deliver_append:
  "deliver (xs @ ys) s =
     (case deliver xs s of Handled u \<Rightarrow> deliver ys u | esp_restart \<Rightarrow> esp_restart)"
  by (induction xs arbitrary: s) (simp_all split: handled.splits)

lemma wait_loop_teardown:
  "wait_loop lt rs s = Returned t \<Longrightarrow>
   \<exists>pre evs rest u v. rs = pre @ evs # rest
     \<and> deliver (concat pre @ evs) s = Handled u \<and> MQTT_DISCONNECT_FLAG u
     \<and> deliver lt (u\<lparr>mqtt_calls := mqtt_calls u @ [esp_mqtt_client_stop]\<rparr>) = Handled v
     \<and> t = v\<lparr>mqtt_calls := mqtt_calls v @ [esp_mqtt_client_destroy],
              MQTT_DISCONNECT_FLAG := False\<rparr>"
proof (induction rs arbitrary: s)
  case Nil
  then show ?case by simp
next
  case (Cons evs rs)
  from Cons.prems obtain u where u: "deliver evs s = Handled u"
    by (cases "deliver evs s") simp_all
  show ?case
  proof (cases "MQTT_DISCONNECT_FLAG u")
    case True
    with Cons.prems u obtain v where
      v: "deliver lt (u\<lparr>mqtt_calls := mqtt_calls u @ [esp_mqtt_client_stop]\<rparr>) = Handled v"
      and t: "t = v\<lparr>mqtt_calls := mqtt_calls v @ [esp_mqtt_client_destroy],
              MQTT_DISCONNECT_FLAG := False\<rparr>"
      by (auto split: handled.splits)
    have "evs # rs = [] @ evs # rs" "deliver (concat [] @ evs) s = Handled u"
      using u by simp_all
    with True v t show ?thesis by blast
  next
    case False
    with Cons.prems u have "wait_loop lt rs u = Returned t" by simp
    from Cons.IH [OF this] obtain pre evs' rest w v where
      r: "rs = pre @ evs' # rest"
      and d: "deliver (concat pre @ evs') u = Handled w" "MQTT_DISCONNECT_FLAG w"
      and v: "deliver lt (w\<lparr>mqtt_calls := mqtt_calls w @ [esp_mqtt_client_stop]\<rparr>) = Handled v"
      and t: "t = v\<lparr>mqtt_calls := mqtt_calls v @ [esp_mqtt_client_destroy],
              MQTT_DISCONNECT_FLAG := False\<rparr>"
      by blast
    from r have "evs # rs = (evs # pre) @ evs' # rest" by simp
    moreover from u d(1) have "deliver (concat (evs # pre) @ evs') s = Handled w"
      by (simp add: deliver_append)
    ultimately show ?thesis using d(2) v t by blast
  qed
qed

lemma wait_loop_polling:
  "wait_loop lt (evs # rs) s = Polling t \<Longrightarrow>
   deliver (concat (evs # rs)) s = Handled t \<and> \<not> MQTT_DISCONNECT_FLAG t"
proof (induction rs arbitrary: evs s)
  case Nil
  then show ?case by (auto split: handled.splits if_splits)
next
  case (Cons r rs)
  from Cons.prems obtain u where u: "deliver evs s = Handled u" "\<not> MQTT_DISCONNECT_FLAG u"
    "wait_loop lt (r # rs) u = Polling t"
    by (auto split: handled.splits if_splits)
  from Cons.IH [OF u(3)] u(1) show ?case
    by (simp add: deliver_append)
qed

lemma wait_loop_calls:
  assumes "wait_loop lt rs s = Returned t"
  shows "\<exists>pre evs rest u. rs = pre @ evs # rest
     \<and> deliver (concat pre @ evs) s = Handled u \<and> MQTT_DISCONNECT_FLAG u
     \<and> mqtt_calls t = mqtt_calls s
          @ replicate (length (filter is_connected (concat pre @ evs)))
              (esp_mqtt_client_publish MQTT_TOPIC (json_payload s) 0 1 0)
          @ [esp_mqtt_client_stop]
          @ replicate (length (filter is_connected lt))
              (esp_mqtt_client_publish MQTT_TOPIC (json_payload s) 0 1 0)
          @ [esp_mqtt_client_destroy]
     \<and> \<not> MQTT_DISCONNECT_FLAG t"
proof -
  from wait_loop_teardown [OF assms] obtain pre evs rest u v where
    r: "rs = pre @ evs # rest"
    and d: "deliver (concat pre @ evs) s = Handled u" "MQTT_DISCONNECT_FLAG u"
    and v: "deliver lt (u\<lparr>mqtt_calls := mqtt_calls u @ [esp_mqtt_client_stop]\<rparr>) = Handled v"
    and t: "t = v\<lparr>mqtt_calls := mqtt_calls v @ [esp_mqtt_client_destroy],
              MQTT_DISCONNECT_FLAG := False\<rparr>"
    by blast
  note a = deliver_effect [OF d(1)] and b = deliver_effect [OF v]
  from a b t have "mqtt_calls t = mqtt_calls s
          @ replicate (length (filter is_connected (concat pre @ evs)))
              (esp_mqtt_client_publish MQTT_TOPIC (json_payload s) 0 1 0)
          @ [esp_mqtt_client_stop]
          @ replicate (length (filter is_connected lt))
              (esp_mqtt_client_publish MQTT_TOPIC (json_payload s) 0 1 0)
          @ [esp_mqtt_client_destroy]"
    by simp
  moreover from t have "\<not> MQTT_DISCONNECT_FLAG t" by simp
  ultimately show ?thesis using r d by blast
qed


text \<open>
  Claim C6. On the connected event the handler makes one publish call, of the current
  payload on the fixed topic with QoS 1, and sets the flag when the call returns a
  negative value. When that call fails and nothing else arrives, the polling loop returns
  after this one publish followed by stop and destroy, whatever rounds would follow. A
  round that leaves the flag set makes the loop stop the client, take the events that
  still arrive, destroy the client, clear the flag and return. This loop is what
  \<^verbatim>\<open>send_data\<close> runs once the client is created and started.

  For every batch of events the publish calls are one per connected event and no more,
  each of the current payload, and a failed publish leaves the flag set at the end of the
  batch. For every sequence of rounds: if the loop returns, the flag was set at the end
  of one of the rounds, and the calls made are the publishes of the connected events up
  to that round, then stop, then the publishes of connected events that still arrived,
  then destroy, with the flag cleared; and if the loop is still polling after at least
  one round, every event has been handled and the flag is not set.
\<close>

theorem publish_once_then_teardown:
  "mqtt_event_handler (MQTT_EVENT_CONNECTED msg_id) s =
     Handled (s\<lparr>mqtt_calls := mqtt_calls s
                   @ [esp_mqtt_client_publish MQTT_TOPIC (json_payload s) 0 1 0],
                 MQTT_DISCONNECT_FLAG := (MQTT_DISCONNECT_FLAG s \<or> msg_id < 0)\<rparr>)
   \<and> (msg_id < 0 \<longrightarrow>
        wait_loop [] ([MQTT_EVENT_CONNECTED msg_id] # rest) s =
          Returned (s\<lparr>mqtt_calls := mqtt_calls s
                         @ [esp_mqtt_client_publish MQTT_TOPIC (json_payload s) 0 1 0,
                            esp_mqtt_client_stop, esp_mqtt_client_destroy],
                       MQTT_DISCONNECT_FLAG := False\<rparr>))
   \<and> (deliver evs s = Handled s' \<and> MQTT_DISCONNECT_FLAG s'
        \<and> deliver lt (s'\<lparr>mqtt_calls := mqtt_calls s' @ [esp_mqtt_client_stop]\<rparr>) = Handled s''
        \<longrightarrow>
        wait_loop lt (evs # rest) s =
          Returned (s''\<lparr>mqtt_calls := mqtt_calls s'' @ [esp_mqtt_client_destroy],
                        MQTT_DISCONNECT_FLAG := False\<rparr>))
   \<and> (client_created env \<and> client_started env \<longrightarrow>
        send_data env s =
          wait_loop (late env) (rounds env)
            (s\<lparr>mqtt_calls := mqtt_calls s @ [esp_mqtt_client_init,
                 esp_mqtt_client_register_event, esp_mqtt_client_start]\<rparr>))
   \<and> (deliver batch s = Handled sb \<longrightarrow>
        mqtt_calls sb = mqtt_calls s
          @ replicate (length (filter is_connected batch))
              (esp_mqtt_client_publish MQTT_TOPIC (json_payload s) 0 1 0)
        \<and> json_payload sb = json_payload s
        \<and> (MQTT_EVENT_CONNECTED failed \<in> set batch \<and> failed < 0 \<longrightarrow> MQTT_DISCONNECT_FLAG sb))
   \<and> (wait_loop lt rs s = Returned sr \<longrightarrow>
        (\<exists>pre rd post su. rs = pre @ rd # post
          \<and> deliver (concat pre @ rd) s = Handled su \<and> MQTT_DISCONNECT_FLAG su
          \<and> mqtt_calls sr = mqtt_calls s
               @ replicate (length (filter is_connected (concat pre @ rd)))
                   (esp_mqtt_client_publish MQTT_TOPIC (json_payload s) 0 1 0)
               @ [esp_mqtt_client_stop]
               @ replicate (length (filter is_connected lt))
                   (esp_mqtt_client_publish MQTT_TOPIC (json_payload s) 0 1 0)
               @ [esp_mqtt_client_destroy]
          \<and> \<not> MQTT_DISCONNECT_FLAG sr))
   \<and> (wait_loop lt (rd # rs) s = Polling sp \<longrightarrow>
        deliver (concat (rd # rs)) s = Handled sp \<and> \<not> MQTT_DISCONNECT_FLAG sp)"
proof -
  have a: "mqtt_event_handler (MQTT_EVENT_CONNECTED msg_id) s =
     Handled (s\<lparr>mqtt_calls := mqtt_calls s
                   @ [esp_mqtt_client_publish MQTT_TOPIC (json_payload s) 0 1 0],
                 MQTT_DISCONNECT_FLAG := (MQTT_DISCONNECT_FLAG s \<or> msg_id < 0)\<rparr>)"
    by (rule handler_connected)
  have b: "msg_id < 0 \<longrightarrow>
        wait_loop [] ([MQTT_EVENT_CONNECTED msg_id] # rest) s =
          Returned (s\<lparr>mqtt_calls := mqtt_calls s
                         @ [esp_mqtt_client_publish MQTT_TOPIC (json_payload s) 0 1 0,
                            esp_mqtt_client_stop, esp_mqtt_client_destroy],
                       MQTT_DISCONNECT_FLAG := False\<rparr>)"
    by (simp add: handler_connected)
  have c: "deliver evs s = Handled s' \<and> MQTT_DISCONNECT_FLAG s'
        \<and> deliver lt (s'\<lparr>mqtt_calls := mqtt_calls s' @ [esp_mqtt_client_stop]\<rparr>) = Handled s''
        \<longrightarrow>
        wait_loop lt (evs # rest) s =
          Returned (s''\<lparr>mqtt_calls := mqtt_calls s'' @ [esp_mqtt_client_destroy],
                        MQTT_DISCONNECT_FLAG := False\<rparr>)"
    by simp
  have d: "client_created env \<and> client_started env \<longrightarrow>
        send_data env s =
          wait_loop (late env) (rounds env)
            (s\<lparr>mqtt_calls := mqtt_calls s @ [esp_mqtt_client_init,
                 esp_mqtt_client_register_event, esp_mqtt_client_start]\<rparr>)"
    by (simp add: send_data_def)
  have e: "deliver batch s = Handled sb \<longrightarrow>
        mqtt_calls sb = mqtt_calls s
          @ replicate (length (filter is_connected batch))
              (esp_mqtt_client_publish MQTT_TOPIC (json_payload s) 0 1 0)
        \<and> json_payload sb = json_payload s
        \<and> (MQTT_EVENT_CONNECTED failed \<in> set batch \<and> failed < 0 \<longrightarrow> MQTT_DISCONNECT_FLAG sb)"
    using deliver_effect [of batch s sb] by blast
  have f: "wait_loop lt rs s = Returned sr \<longrightarrow>
        (\<exists>pre rd post su. rs = pre @ rd # post
          \<and> deliver (concat pre @ rd) s = Handled su \<and> MQTT_DISCONNECT_FLAG su
          \<and> mqtt_calls sr = mqtt_calls s
               @ replicate (length (filter is_connected (concat pre @ rd)))
                   (esp_mqtt_client_publish MQTT_TOPIC (json_payload s) 0 1 0)
               @ [esp_mqtt_client_stop]
               @ replicate (length (filter is_connected lt))
                   (esp_mqtt_client_publish MQTT_TOPIC (json_payload s) 0 1 0)
               @ [esp_mqtt_client_destroy]
          \<and> \<not> MQTT_DISCONNECT_FLAG sr)"
    using wait_loop_calls [of lt rs s sr] by (intro impI)
  have g: "wait_loop lt (rd # rs) s = Polling sp \<longrightarrow>
        deliver (concat (rd # rs)) s = Handled sp \<and> \<not> MQTT_DISCONNECT_FLAG sp"
    using wait_loop_polling [of lt rd rs s sp] by (intro impI)
  from a b c d e f g show ?thesis by (intro conjI)
qed

theorem publish_once_then_teardown_witness:
  "(- 1 :: int) < 0
   \<and> wait_loop [] ([MQTT_EVENT_CONNECTED (- 1)] # [[MQTT_EVENT_PUBLISHED]]) (boot 0) =
       Returned \<lparr>rng_pos = 0, entropy64 = 0, json_payload = [], MQTT_DISCONNECT_FLAG = False,
         mqtt_calls = [esp_mqtt_client_publish MQTT_TOPIC [] 0 1 0,
                       esp_mqtt_client_stop, esp_mqtt_client_destroy]\<rparr>
   \<and> deliver [MQTT_EVENT_CONNECTED 7, MQTT_EVENT_PUBLISHED] (boot 0) =
       Handled \<lparr>rng_pos = 0, entropy64 = 0, json_payload = [], MQTT_DISCONNECT_FLAG = True,
         mqtt_calls = [esp_mqtt_client_publish MQTT_TOPIC [] 0 1 0]\<rparr>
   \<and> deliver [MQTT_EVENT_DISCONNECTED]
        \<lparr>rng_pos = 0, entropy64 = 0, json_payload = [], MQTT_DISCONNECT_FLAG = True,
          mqtt_calls = [esp_mqtt_client_publish MQTT_TOPIC [] 0 1 0, esp_mqtt_client_stop]\<rparr> =
       Handled \<lparr>rng_pos = 0, entropy64 = 0, json_payload = [], MQTT_DISCONNECT_FLAG = True,
         mqtt_calls = [esp_mqtt_client_publish MQTT_TOPIC [] 0 1 0, esp_mqtt_client_stop]\<rparr>
   \<and> wait_loop [MQTT_EVENT_DISCONNECTED]
         ([MQTT_EVENT_CONNECTED 7, MQTT_EVENT_PUBLISHED] # [[MQTT_EVENT_PUBLISHED]]) (boot 0) =
       Returned \<lparr>rng_pos = 0, entropy64 = 0, json_payload = [], MQTT_DISCONNECT_FLAG = False,
         mqtt_calls = [esp_mqtt_client_publish MQTT_TOPIC [] 0 1 0,
                       esp_mqtt_client_stop, esp_mqtt_client_destroy]\<rparr>
   \<and> send_data \<lparr>client_created = True, client_started = True,
                   rounds = [[MQTT_EVENT_CONNECTED (- 1)]], late = []\<rparr> (boot 0) =
       Returned \<lparr>rng_pos = 0, entropy64 = 0, json_payload = [], MQTT_DISCONNECT_FLAG = False,
         mqtt_calls = [esp_mqtt_client_init, esp_mqtt_client_register_event,
                       esp_mqtt_client_start, esp_mqtt_client_publish MQTT_TOPIC [] 0 1 0,
                       esp_mqtt_client_stop, esp_mqtt_client_destroy]\<rparr>
   \<and> deliver [MQTT_EVENT_CONNECTED (- 1), MQTT_EVENT_OTHER] (boot 0) =
       Handled \<lparr>rng_pos = 0, entropy64 = 0, json_payload = [], MQTT_DISCONNECT_FLAG = True,
         mqtt_calls = [esp_mqtt_client_publish MQTT_TOPIC [] 0 1 0]\<rparr>
   \<and> MQTT_EVENT_CONNECTED (- 1) \<in> set [MQTT_EVENT_CONNECTED (- 1), MQTT_EVENT_OTHER]
   \<and> wait_loop [MQTT_EVENT_DISCONNECTED] [[MQTT_EVENT_CONNECTED 1], [], [MQTT_EVENT_PUBLISHED]]
         (boot 0) =
       Returned \<lparr>rng_pos = 0, entropy64 = 0, json_payload = [], MQTT_DISCONNECT_FLAG = False,
         mqtt_calls = [esp_mqtt_client_publish MQTT_TOPIC [] 0 1 0,
                       esp_mqtt_client_stop, esp_mqtt_client_destroy]\<rparr>
   \<and> wait_loop [] ([MQTT_EVENT_CONNECTED 1] # [[]]) (boot 0) =
       Polling \<lparr>rng_pos = 0, entropy64 = 0, json_payload = [], MQTT_DISCONNECT_FLAG = False,
         mqtt_calls = [esp_mqtt_client_publish MQTT_TOPIC [] 0 1 0]\<rparr>
   \<and> deliver (concat ([MQTT_EVENT_CONNECTED 1] # [[]])) (boot 0) =
       Handled \<lparr>rng_pos = 0, entropy64 = 0, json_payload = [], MQTT_DISCONNECT_FLAG = False,
         mqtt_calls = [esp_mqtt_client_publish MQTT_TOPIC [] 0 1 0]\<rparr>"
proof -
  let ?pub = "esp_mqtt_client_publish MQTT_TOPIC [] 0 1 0"
  let ?s1 = "\<lparr>rng_pos = 0, entropy64 = 0, json_payload = [], MQTT_DISCONNECT_FLAG = True,
         mqtt_calls = [?pub]\<rparr>"
  let ?s2 = "\<lparr>rng_pos = 0, entropy64 = 0, json_payload = [], MQTT_DISCONNECT_FLAG = True,
         mqtt_calls = [?pub, esp_mqtt_client_stop]\<rparr>"
  let ?sr = "\<lparr>rng_pos = 0, entropy64 = 0, json_payload = [], MQTT_DISCONNECT_FLAG = False,
         mqtt_calls = [?pub, esp_mqtt_client_stop, esp_mqtt_client_destroy]\<rparr>"
  let ?sp = "\<lparr>rng_pos = 0, entropy64 = 0, json_payload = [], MQTT_DISCONNECT_FLAG = False,
         mqtt_calls = [?pub]\<rparr>"
  have d: "deliver [MQTT_EVENT_CONNECTED 7, MQTT_EVENT_PUBLISHED] (boot 0) = Handled ?s1"
    by (simp add: boot_def mqtt_event_handler_def)
  have f: "MQTT_DISCONNECT_FLAG ?s1" by simp
  have l: "deliver [MQTT_EVENT_DISCONNECTED] ?s2 = Handled ?s2"
    by (simp add: mqtt_event_handler_def)
  have b: "deliver [MQTT_EVENT_CONNECTED (- 1), MQTT_EVENT_OTHER] (boot 0) = Handled ?s1"
    by (simp add: boot_def mqtt_event_handler_def)
  have r: "wait_loop [MQTT_EVENT_DISCONNECTED]
             [[MQTT_EVENT_CONNECTED 1], [], [MQTT_EVENT_PUBLISHED]] (boot 0) = Returned ?sr"
    by (simp add: boot_def mqtt_event_handler_def)
  have p: "wait_loop [] ([MQTT_EVENT_CONNECTED 1] # [[]]) (boot 0) = Polling ?sp"
    by (simp add: boot_def mqtt_event_handler_def)
  note t1 = publish_once_then_teardown
         [where msg_id = "- 1" and s = "boot 0" and rest = "[[MQTT_EVENT_PUBLISHED]]"
            and evs = "[MQTT_EVENT_CONNECTED 7, MQTT_EVENT_PUBLISHED]" and s' = ?s1
            and lt = "[MQTT_EVENT_DISCONNECTED]" and s'' = ?s2
            and env = "\<lparr>client_created = True, client_started = True,
                   rounds = [[MQTT_EVENT_CONNECTED (- 1)]], late = []\<rparr>"
            and batch = "[MQTT_EVENT_CONNECTED (- 1), MQTT_EVENT_OTHER]" and sb = ?s1
            and failed = "- 1"
            and rs = "[[MQTT_EVENT_CONNECTED 1], [], [MQTT_EVENT_PUBLISHED]]" and sr = ?sr]
  note t2 = publish_once_then_teardown
         [where s = "boot 0" and lt = "[]" and rd = "[MQTT_EVENT_CONNECTED 1]"
            and rs = "[[]]" and sp = ?sp]
  note c2 = conjunct2
  note tb = t1 [THEN c2, THEN conjunct1]
    and tc = t1 [THEN c2, THEN c2, THEN conjunct1]
    and td = t1 [THEN c2, THEN c2, THEN c2, THEN conjunct1]
    and tg = t2 [THEN c2, THEN c2, THEN c2, THEN c2, THEN c2, THEN c2]
  from tg p have q: "deliver (concat ([MQTT_EVENT_CONNECTED 1] # [[]])) (boot 0) = Handled ?sp"
    by (rule mp [THEN conjunct1])
  have lk: "deliver [MQTT_EVENT_DISCONNECTED]
              (?s1\<lparr>mqtt_calls := mqtt_calls ?s1 @ [esp_mqtt_client_stop]\<rparr>) = Handled ?s2"
    by (simp add: mqtt_event_handler_def)
  from d f lk have "deliver [MQTT_EVENT_CONNECTED 7, MQTT_EVENT_PUBLISHED] (boot 0) = Handled ?s1
      \<and> MQTT_DISCONNECT_FLAG ?s1
      \<and> deliver [MQTT_EVENT_DISCONNECTED]
            (?s1\<lparr>mqtt_calls := mqtt_calls ?s1 @ [esp_mqtt_client_stop]\<rparr>) = Handled ?s2"
    by (intro conjI)
  with tc have w: "wait_loop [MQTT_EVENT_DISCONNECTED]
       ([MQTT_EVENT_CONNECTED 7, MQTT_EVENT_PUBLISHED] # [[MQTT_EVENT_PUBLISHED]]) (boot 0) =
       Returned (?s2\<lparr>mqtt_calls := mqtt_calls ?s2 @ [esp_mqtt_client_destroy],
                        MQTT_DISCONNECT_FLAG := False\<rparr>)"
    by (rule mp)
  have "(- 1 :: int) < 0" by simp
  with tb have x: "wait_loop [] ([MQTT_EVENT_CONNECTED (- 1)] # [[MQTT_EVENT_PUBLISHED]]) (boot 0) =
          Returned (boot 0\<lparr>mqtt_calls := mqtt_calls (boot 0)
                         @ [esp_mqtt_client_publish MQTT_TOPIC (json_payload (boot 0)) 0 1 0,
                            esp_mqtt_client_stop, esp_mqtt_client_destroy],
                       MQTT_DISCONNECT_FLAG := False\<rparr>)"
    by (rule mp)
  have "client_created \<lparr>client_created = True, client_started = True,
                   rounds = [[MQTT_EVENT_CONNECTED (- 1)]], late = []\<rparr>
      \<and> client_started \<lparr>client_created = True, client_started = True,
                   rounds = [[MQTT_EVENT_CONNECTED (- 1)]], late = []\<rparr>"
    by simp
  with td have y: "send_data \<lparr>client_created = True, client_started = True,
                   rounds = [[MQTT_EVENT_CONNECTED (- 1)]], late = []\<rparr> (boot 0) =
          wait_loop (late \<lparr>client_created = True, client_started = True,
                   rounds = [[MQTT_EVENT_CONNECTED (- 1)]], late = []\<rparr>)
            (rounds \<lparr>client_created = True, client_started = True,
                   rounds = [[MQTT_EVENT_CONNECTED (- 1)]], late = []\<rparr>)
            (boot 0\<lparr>mqtt_calls := mqtt_calls (boot 0) @ [esp_mqtt_client_init,
                 esp_mqtt_client_register_event, esp_mqtt_client_start]\<rparr>)"
    by (rule mp)
  from d l b r p q w x y show ?thesis
    by (simp add: boot_def mqtt_event_handler_def)
qed

lemma report_cycle_started:
  "generate_poisson_delay tick (src (rng_pos s)) = Some d \<Longrightarrow>
   client_created env \<Longrightarrow> client_started env \<Longrightarrow>
   report_cycle ord src tick env s =
     wait_loop (late env) (rounds env)
       (s\<lparr>rng_pos := Suc (Suc (Suc (rng_pos s))),
          entropy64 := fst (draw_entropy64 ord src (Suc (rng_pos s))),
          json_payload := encode_payload (fst (draw_entropy64 ord src (Suc (rng_pos s)))),
          mqtt_calls := mqtt_calls s @ [esp_mqtt_client_init, esp_mqtt_client_register_event,
                                        esp_mqtt_client_start]\<rparr>)"
  by (simp add: report_cycle_def esp_random_def send_data_def split_beta draw_entropy64_pos)

lemma wait_loop_returned:
  "wait_loop lt rs s = Returned s' \<Longrightarrow> \<not> MQTT_DISCONNECT_FLAG s'"
proof (induction rs arbitrary: s)
  case Nil
  then show ?case by simp
next
  case (Cons evs rs)
  show ?case
  proof (cases "deliver evs s")
    case (Handled s1)
    show ?thesis
    proof (cases "MQTT_DISCONNECT_FLAG s1")
      case True
      with Handled Cons.prems show ?thesis
        by (auto split: handled.splits)
    next
      case False
      with Handled Cons.prems have "wait_loop lt rs s1 = Returned s'" by simp
      then show ?thesis by (rule Cons.IH)
    qed
  next
    case esp_restart
    with Cons.prems show ?thesis by simp
  qed
qed

lemma send_data_flag:
  "send_data env s = Returned s' \<Longrightarrow> \<not> MQTT_DISCONNECT_FLAG s \<Longrightarrow> \<not> MQTT_DISCONNECT_FLAG s'"
proof (cases "client_created env \<and> client_started env")
  case False
  assume "send_data env s = Returned s'" "\<not> MQTT_DISCONNECT_FLAG s"
  with False show ?thesis
    by (auto simp add: send_data_def Let_def split: if_splits)
next
  case True
  assume "send_data env s = Returned s'"
  with True show ?thesis
    by (auto simp add: send_data_def Let_def dest: wait_loop_returned)
qed

lemma report_cycle_flag:
  assumes "report_cycle ord src tick env s = Returned s'" and "\<not> MQTT_DISCONNECT_FLAG s"
  shows "\<not> MQTT_DISCONNECT_FLAG s'"
proof (cases "generate_poisson_delay tick (src (rng_pos s))")
  case None
  with assms(1) show ?thesis
    by (simp add: report_cycle_def esp_random_def)
next
  case (Some d)
  obtain v n2 where d: "draw_entropy64 ord src (Suc (rng_pos s)) = (v, n2)"
    by (cases "draw_entropy64 ord src (Suc (rng_pos s))")
  let ?s1 = "s\<lparr>rng_pos := n2, entropy64 := v, json_payload := encode_payload v\<rparr>"
  from assms(1) Some d have "send_data env ?s1 = Returned s'"
    by (simp add: report_cycle_def esp_random_def)
  moreover from assms(2) have "\<not> MQTT_DISCONNECT_FLAG ?s1" by simp
  ultimately show ?thesis by (rule send_data_flag)
qed

lemma cycle_start_flag: "cycle_start ord src tick s \<Longrightarrow> \<not> MQTT_DISCONNECT_FLAG s"
proof (induction rule: cycle_start.induct)
  case (first n)
  show ?case by (simp add: boot_def)
next
  case (next_cycle s env s')
  from next_cycle.hyps(2) next_cycle.IH show ?case by (rule report_cycle_flag)
qed

lemma wait_loop_idle:
  "\<not> MQTT_DISCONNECT_FLAG s \<Longrightarrow> wait_loop lt (replicate k []) s = Polling s"
  by (induction k) simp_all

text \<open>
  Claim C10. At the start of every cycle of the report loop the flag is false; it is false
  again whenever the cycle's \<^verbatim>\<open>send_data\<close> returns, also when events arrive while the
  client is being stopped; and a polling loop entered with the flag as it is at the start
  of the cycle never returns without an event of its own.
\<close>

theorem flag_clear_when_wait_begins:
  assumes "cycle_start ord src tick s"
  shows "\<not> MQTT_DISCONNECT_FLAG s
    \<and> (\<forall>env s'. report_cycle ord src tick env s = Returned s' \<longrightarrow> \<not> MQTT_DISCONNECT_FLAG s')
    \<and> (\<forall>s2 lt k. MQTT_DISCONNECT_FLAG s2 = MQTT_DISCONNECT_FLAG s
          \<longrightarrow> wait_loop lt (replicate k []) s2 = Polling s2)"
proof -
  from assms have f: "\<not> MQTT_DISCONNECT_FLAG s" by (rule cycle_start_flag)
  have g: "\<not> MQTT_DISCONNECT_FLAG s'" if "report_cycle ord src tick env s = Returned s'" for env s'
    using that f by (rule report_cycle_flag)
  have h: "wait_loop lt (replicate k []) s2 = Polling s2"
    if "MQTT_DISCONNECT_FLAG s2 = MQTT_DISCONNECT_FLAG s" for s2 lt k
    using that f by (simp add: wait_loop_idle)
  from g have g': "\<forall>env s'. report_cycle ord src tick env s = Returned s' \<longrightarrow> \<not> MQTT_DISCONNECT_FLAG s'"
    by (intro allI impI)
  from h have h': "\<forall>s2 lt k. MQTT_DISCONNECT_FLAG s2 = MQTT_DISCONNECT_FLAG s
          \<longrightarrow> wait_loop lt (replicate k []) s2 = Polling s2"
    by (intro allI impI)
  from f g' h' show ?thesis by (intro conjI)
qed

theorem flag_clear_when_wait_begins_witness:
  "cycle_start Left_first (\<lambda>_. UINT32_MAX) 10
     \<lparr>rng_pos = 3, entropy64 = fst (draw_entropy64 Left_first (\<lambda>_. UINT32_MAX) 1),
       json_payload = encode_payload (fst (draw_entropy64 Left_first (\<lambda>_. UINT32_MAX) 1)),
       MQTT_DISCONNECT_FLAG = False,
       mqtt_calls = [esp_mqtt_client_init, esp_mqtt_client_register_event, esp_mqtt_client_start,
         esp_mqtt_client_publish MQTT_TOPIC
           (encode_payload (fst (draw_entropy64 Left_first (\<lambda>_. UINT32_MAX) 1))) 0 1 0,
         esp_mqtt_client_stop, esp_mqtt_client_destroy]\<rparr>
   \<and> \<not> MQTT_DISCONNECT_FLAG
     \<lparr>rng_pos = 3, entropy64 = fst (draw_entropy64 Left_first (\<lambda>_. UINT32_MAX) 1),
       json_payload = encode_payload (fst (draw_entropy64 Left_first (\<lambda>_. UINT32_MAX) 1)),
       MQTT_DISCONNECT_FLAG = False,
       mqtt_calls = [esp_mqtt_client_init, esp_mqtt_client_register_event, esp_mqtt_client_start,
         esp_mqtt_client_publish MQTT_TOPIC
           (encode_payload (fst (draw_entropy64 Left_first (\<lambda>_. UINT32_MAX) 1))) 0 1 0,
         esp_mqtt_client_stop, esp_mqtt_client_destroy]\<rparr>"
  (is "cycle_start ?ord ?src 10 ?S \<and> _")
proof -
  let ?env = "\<lparr>client_created = True, client_started = True,
                rounds = [[MQTT_EVENT_CONNECTED 1], [], [MQTT_EVENT_PUBLISHED]],
                late = [MQTT_EVENT_DISCONNECTED]\<rparr>"
  have "report_cycle ?ord ?src 10 ?env (boot 0) = Returned ?S"
    by (subst report_cycle_started [where d = 0])
       (simp_all add: delay_max_draw boot_def mqtt_event_handler_def)
  with cycle_start.first [of ?ord ?src 10 0] have c: "cycle_start ?ord ?src 10 ?S"
    by (rule cycle_start.next_cycle)
  from flag_clear_when_wait_begins [OF c] have "\<not> MQTT_DISCONNECT_FLAG ?S"
    by (rule conjunct1)
  with c show ?thesis
    by (rule conjI)
qed

subsection \<open>Connectivity Manager and Provisioning Listener\<close>

lemma wait_any_blocked:
  "xEventGroupWaitBits m True False s =
     (if s_wifi_event_group s AND m = 0 then None
      else Some (s_wifi_event_group s, xEventGroupClearBits m s))"
  by (simp add: xEventGroupWaitBits_def Let_def)

lemma cleared_group: "s_wifi_event_group (xEventGroupClearBits m s) AND m = 0"
  unfolding xEventGroupClearBits_def
  by (simp, rule bit_word_eqI) (auto simp add: bit_simps)

lemma and_or_zero: "(g AND (a OR b) = 0) = (g AND a = 0 \<and> g AND b = (0 :: u32))"
  by (simp add: bit.conj_disj_distrib or_eq_0_iff)

lemma smartconfig_loop_blocked:
  "s_wifi_event_group s AND (CONNECTED_BIT OR ESPTOUCH_DONE_BIT) = 0 \<Longrightarrow> smartconfig_loop s = s"
  by (subst smartconfig_loop.simps) (simp add: wait_any_blocked)

lemma smartconfig_loop_closed:
  "smartconfig_loop s =
     (if s_wifi_event_group s AND ESPTOUCH_DONE_BIT \<noteq> 0
      then vTaskDelete ''sc_task''
             (record_call esp_smartconfig_stop
                (xEventGroupClearBits (CONNECTED_BIT OR ESPTOUCH_DONE_BIT) s))
      else if s_wifi_event_group s AND CONNECTED_BIT \<noteq> 0
      then xEventGroupClearBits (CONNECTED_BIT OR ESPTOUCH_DONE_BIT) s
      else s)"
proof -
  let ?m = "CONNECTED_BIT OR ESPTOUCH_DONE_BIT"
  have blocked: "smartconfig_loop (xEventGroupClearBits ?m s) = xEventGroupClearBits ?m s"
    by (rule smartconfig_loop_blocked) (rule cleared_group)
  show ?thesis
    by (subst smartconfig_loop.simps) (simp add: wait_any_blocked and_or_zero blocked)
qed

lemma task_list_smartconfig_loop:
  "task_list (smartconfig_loop s) =
     (if s_wifi_event_group s AND ESPTOUCH_DONE_BIT \<noteq> 0
      then remove1 ''sc_task'' (task_list s) else task_list s)"
  by (simp add: smartconfig_loop_closed vTaskDelete_def record_call_def xEventGroupClearBits_def)

lemma wifi_calls_smartconfig_loop:
  "wifi_calls (smartconfig_loop s) =
     (if s_wifi_event_group s AND ESPTOUCH_DONE_BIT \<noteq> 0
      then wifi_calls s @ [esp_smartconfig_stop] else wifi_calls s)"
  by (simp add: smartconfig_loop_closed vTaskDelete_def record_call_def xEventGroupClearBits_def)

lemma task_handle_None: "(xTaskGetHandle n s = None) = (n \<notin> set (task_list s))"
  by (simp add: xTaskGetHandle_def)

lemma distinct_event_handler:
  "distinct (task_list s) \<Longrightarrow> distinct (task_list (event_handler ev s))"
  by (cases ev)
     (simp_all add: event_handler_def task_handle_None xTaskCreate_def record_call_def
        xEventGroupSetBits_def xEventGroupClearBits_def Let_def)

lemma distinct_dispatch:
  "distinct (task_list s) \<Longrightarrow> distinct (task_list (dispatch ev s))"
proof -
  assume "distinct (task_list s)"
  then have d: "distinct (task_list (event_handler ev s))"
    by (rule distinct_event_handler)
  then have "distinct (task_list (smartconfig_loop (event_handler ev s)))"
    by (simp add: task_list_smartconfig_loop)
  moreover from d have "distinct (task_list (smartconfig_task (event_handler ev s)))"
    by (simp add: smartconfig_task_def task_list_smartconfig_loop record_call_def)
  ultimately show ?thesis
    using d by (simp add: dispatch_def Let_def)
qed

lemma distinct_run_events:
  "distinct (task_list s) \<Longrightarrow> distinct (task_list (run_events evs s))"
  by (induction evs arbitrary: s) (simp_all add: distinct_dispatch)

lemma count_list_distinct: "distinct xs \<Longrightarrow> count_list xs x \<le> 1"
  by (induction xs) (auto simp add: count_list_0_iff)

lemma got_ip_idempotent:
  "xTaskGetHandle ''report_task'' s \<noteq> None \<Longrightarrow>
   event_handler IP_EVENT_STA_GOT_IP s = xEventGroupSetBits CONNECTED_BIT s"
  by (simp add: event_handler_def Let_def task_handle_None xEventGroupSetBits_def)

lemma sta_start_idempotent:
  "xTaskGetHandle ''sc_task'' s \<noteq> None \<Longrightarrow> \<not> (err_ok \<and> 0 < strlen ssid) \<Longrightarrow>
   event_handler (WIFI_EVENT_STA_START err_ok ssid) s = s"
  by (auto simp add: event_handler_def task_handle_None)

lemma provisioning_state:
  "run_events [WIFI_EVENT_STA_START False []] initialize_wifi =
     \<lparr>s_wifi_event_group = 0, task_list = [''sc_task''],
       wifi_calls = [esp_smartconfig_set_type, esp_smartconfig_start]\<rparr>"
  by code_simp

lemma ack_only_run:
  "run_events [WIFI_EVENT_STA_START False [], SC_EVENT_SEND_ACK_DONE] initialize_wifi =
     \<lparr>s_wifi_event_group = 0, task_list = [],
       wifi_calls = [esp_smartconfig_set_type, esp_smartconfig_start, esp_smartconfig_stop]\<rparr>"
  by code_simp

lemma both_tasks_state:
  "run_events [WIFI_EVENT_STA_START False [], IP_EVENT_STA_GOT_IP] initialize_wifi =
     \<lparr>s_wifi_event_group = 0, task_list = [''sc_task'', ''report_task''],
       wifi_calls = [esp_smartconfig_set_type, esp_smartconfig_start]\<rparr>"
  by code_simp

lemma done_bit_facts:
  "(g OR CONNECTED_BIT) AND ESPTOUCH_DONE_BIT = g AND ESPTOUCH_DONE_BIT"
  "g AND ESPTOUCH_DONE_BIT = 0 \<Longrightarrow> (g AND NOT m) AND ESPTOUCH_DONE_BIT = 0"
proof -
  show "(g OR CONNECTED_BIT) AND ESPTOUCH_DONE_BIT = g AND ESPTOUCH_DONE_BIT"
    by (simp add: CONNECTED_BIT_def ESPTOUCH_DONE_BIT_def bit.conj_disj_distrib2)
  assume "g AND ESPTOUCH_DONE_BIT = 0"
  then have "(g AND ESPTOUCH_DONE_BIT) AND NOT m = 0" by simp
  then show "(g AND NOT m) AND ESPTOUCH_DONE_BIT = 0"
    by (simp add: ac_simps)
qed

lemma cleared_done_bit:
  "s_wifi_event_group s AND ESPTOUCH_DONE_BIT = 0 \<Longrightarrow>
   s_wifi_event_group (xEventGroupClearBits m s) AND ESPTOUCH_DONE_BIT = 0"
  by (simp add: xEventGroupClearBits_def done_bit_facts)

lemma cleared_wifi_calls: "wifi_calls (xEventGroupClearBits m s) = wifi_calls s"
  by (simp add: xEventGroupClearBits_def)

lemma no_ack_event_handler:
  assumes "ev \<noteq> SC_EVENT_SEND_ACK_DONE"
    and "s_wifi_event_group s AND ESPTOUCH_DONE_BIT = 0"
    and "esp_smartconfig_stop \<notin> set (wifi_calls s)"
  shows "s_wifi_event_group (event_handler ev s) AND ESPTOUCH_DONE_BIT = 0
    \<and> esp_smartconfig_stop \<notin> set (wifi_calls (event_handler ev s))"
  using assms
  by (cases ev)
     (simp_all add: event_handler_def xTaskCreate_def record_call_def Let_def
        xEventGroupSetBits_def xEventGroupClearBits_def done_bit_facts)

lemma no_ack_smartconfig_loop:
  assumes "s_wifi_event_group s AND ESPTOUCH_DONE_BIT = 0"
    and "esp_smartconfig_stop \<notin> set (wifi_calls s)"
  shows "s_wifi_event_group (smartconfig_loop s) AND ESPTOUCH_DONE_BIT = 0
    \<and> esp_smartconfig_stop \<notin> set (wifi_calls (smartconfig_loop s))"
  using assms
  by (simp add: smartconfig_loop_closed cleared_done_bit cleared_wifi_calls)

lemma no_ack_dispatch:
  assumes "ev \<noteq> SC_EVENT_SEND_ACK_DONE"
    and "s_wifi_event_group s AND ESPTOUCH_DONE_BIT = 0"
    and "esp_smartconfig_stop \<notin> set (wifi_calls s)"
  shows "s_wifi_event_group (dispatch ev s) AND ESPTOUCH_DONE_BIT = 0
    \<and> esp_smartconfig_stop \<notin> set (wifi_calls (dispatch ev s))"
proof -
  let ?s1 = "event_handler ev s"
  let ?s2 = "record_call esp_smartconfig_start (record_call esp_smartconfig_set_type ?s1)"
  from assms have h: "s_wifi_event_group ?s1 AND ESPTOUCH_DONE_BIT = 0"
    "esp_smartconfig_stop \<notin> set (wifi_calls ?s1)"
    using no_ack_event_handler [of ev s] by simp_all
  then have a: "s_wifi_event_group (smartconfig_loop ?s1) AND ESPTOUCH_DONE_BIT = 0
    \<and> esp_smartconfig_stop \<notin> set (wifi_calls (smartconfig_loop ?s1))"
    by (rule no_ack_smartconfig_loop)
  from h have "s_wifi_event_group ?s2 AND ESPTOUCH_DONE_BIT = 0"
    "esp_smartconfig_stop \<notin> set (wifi_calls ?s2)"
    by (simp_all add: record_call_def)
  then have b: "s_wifi_event_group (smartconfig_loop ?s2) AND ESPTOUCH_DONE_BIT = 0
    \<and> esp_smartconfig_stop \<notin> set (wifi_calls (smartconfig_loop ?s2))"
    by (rule no_ack_smartconfig_loop)
  from h a b show ?thesis
    by (simp add: dispatch_def Let_def smartconfig_task_def)
qed

lemma no_ack_run_events:
  "SC_EVENT_SEND_ACK_DONE \<notin> set evs \<Longrightarrow>
   s_wifi_event_group s AND ESPTOUCH_DONE_BIT = 0 \<Longrightarrow>
   esp_smartconfig_stop \<notin> set (wifi_calls s) \<Longrightarrow>
   esp_smartconfig_stop \<notin> set (wifi_calls (run_events evs s))"
proof (induction evs arbitrary: s)
  case Nil
  then show ?case by simp
next
  case (Cons ev evs)
  from Cons.prems have "ev \<noteq> SC_EVENT_SEND_ACK_DONE" by auto
  with Cons.prems have "s_wifi_event_group (dispatch ev s) AND ESPTOUCH_DONE_BIT = 0
    \<and> esp_smartconfig_stop \<notin> set (wifi_calls (dispatch ev s))"
    by (intro no_ack_dispatch) simp_all
  with Cons.prems Cons.IH [of "dispatch ev s"] show ?case by simp
qed

lemma ack_ends_listener:
  assumes "distinct (task_list s)"
  shows "\<not> provisioning (dispatch SC_EVENT_SEND_ACK_DONE s)"
proof -
  let ?s1 = "event_handler SC_EVENT_SEND_ACK_DONE s"
  have g: "s_wifi_event_group ?s1 AND ESPTOUCH_DONE_BIT \<noteq> 0"
    by (simp add: event_handler_def xEventGroupSetBits_def ESPTOUCH_DONE_BIT_def
          bit.conj_disj_distrib2)
  have t: "task_list ?s1 = task_list s"
    by (simp add: event_handler_def xEventGroupSetBits_def)
  from assms g t show ?thesis
    by (simp add: provisioning_def dispatch_def Let_def task_list_smartconfig_loop)
qed

text \<open>
  Claim C3, as the code has it. The listener waits for either flag. Woken with the
  capture-acknowledged flag it stops the capture and deletes itself, whether or not the
  address-acquired flag is set; woken with the address-acquired flag alone it goes back
  to waiting. A capture-acknowledged event always ends the listener, and in every run from
  initialisation the capture is stopped only if a capture-acknowledged event occurred.
\<close>

theorem listener_ends_on_ack_alone:
  "smartconfig_loop s =
     (if s_wifi_event_group s AND ESPTOUCH_DONE_BIT \<noteq> 0
      then vTaskDelete ''sc_task''
             (record_call esp_smartconfig_stop
                (xEventGroupClearBits (CONNECTED_BIT OR ESPTOUCH_DONE_BIT) s))
      else if s_wifi_event_group s AND CONNECTED_BIT \<noteq> 0
      then xEventGroupClearBits (CONNECTED_BIT OR ESPTOUCH_DONE_BIT) s
      else s)
   \<and> (distinct (task_list s) \<longrightarrow> \<not> provisioning (dispatch SC_EVENT_SEND_ACK_DONE s))
   \<and> (esp_smartconfig_stop \<in> set (wifi_calls (run_events evs initialize_wifi))
        \<longrightarrow> SC_EVENT_SEND_ACK_DONE \<in> set evs)"
proof -
  have "esp_smartconfig_stop \<notin> set (wifi_calls (run_events evs initialize_wifi))"
    if "SC_EVENT_SEND_ACK_DONE \<notin> set evs"
    using that by (rule no_ack_run_events) (simp_all add: initialize_wifi_def)
  then show ?thesis
    using smartconfig_loop_closed [of s] ack_ends_listener [of s] by blast
qed

theorem listener_ends_on_ack_alone_witness:
  "distinct (task_list (run_events [WIFI_EVENT_STA_START False []] initialize_wifi))
   \<and> \<not> provisioning (dispatch SC_EVENT_SEND_ACK_DONE
          (run_events [WIFI_EVENT_STA_START False []] initialize_wifi))
   \<and> esp_smartconfig_stop \<in> set (wifi_calls
        (run_events [WIFI_EVENT_STA_START False [], SC_EVENT_SEND_ACK_DONE] initialize_wifi))
   \<and> SC_EVENT_SEND_ACK_DONE \<in> set [WIFI_EVENT_STA_START False [], SC_EVENT_SEND_ACK_DONE]"
proof -
  have d: "distinct (task_list (run_events [WIFI_EVENT_STA_START False []] initialize_wifi))"
    unfolding provisioning_state by simp
  have c: "esp_smartconfig_stop \<in> set (wifi_calls
        (run_events [WIFI_EVENT_STA_START False [], SC_EVENT_SEND_ACK_DONE] initialize_wifi))"
    unfolding ack_only_run by simp
  from listener_ends_on_ack_alone
         [of "run_events [WIFI_EVENT_STA_START False []] initialize_wifi"
             "[WIFI_EVENT_STA_START False [], SC_EVENT_SEND_ACK_DONE]"]
       d c
  show ?thesis by (elim conjE) (intro conjI, simp_all)
qed

text \<open>
  The claim as stated, that the listener ends only with both conditions observed, fails:
  after a start without credentials and a capture-acknowledged event the listener has
  stopped the capture and is gone, and no address-acquired event has occurred.
\<close>

theorem listener_needs_both_counterexample:
  "esp_smartconfig_stop \<in> set (wifi_calls
     (run_events [WIFI_EVENT_STA_START False [], SC_EVENT_SEND_ACK_DONE] initialize_wifi))
   \<and> \<not> provisioning
     (run_events [WIFI_EVENT_STA_START False [], SC_EVENT_SEND_ACK_DONE] initialize_wifi)
   \<and> provisioning (run_events [WIFI_EVENT_STA_START False []] initialize_wifi)
   \<and> IP_EVENT_STA_GOT_IP \<notin> set [WIFI_EVENT_STA_START False [], SC_EVENT_SEND_ACK_DONE]"
  unfolding ack_only_run provisioning_state
  by (simp add: provisioning_def)

text \<open>
  Claim C4, as the code has it. In every state a link-dropped event clears the
  address-acquired flag and requests reassociation, and does nothing else; whether the
  listener is running makes no difference.
\<close>

theorem link_dropped_reconnects:
  "event_handler WIFI_EVENT_STA_DISCONNECTED s =
     s\<lparr>s_wifi_event_group := s_wifi_event_group s AND NOT CONNECTED_BIT,
       wifi_calls := wifi_calls s @ [esp_wifi_connect]\<rparr>
   \<and> s_wifi_event_group (event_handler WIFI_EVENT_STA_DISCONNECTED s) AND CONNECTED_BIT = 0"
proof -
  have "(s_wifi_event_group s AND NOT CONNECTED_BIT) AND CONNECTED_BIT = 0"
    by (rule bit_word_eqI) (auto simp add: bit_simps)
  then show ?thesis
    by (simp add: event_handler_def record_call_def xEventGroupClearBits_def)
qed

text \<open>
  The exception the claim makes for provisioning fails: with the listener running, a
  link-dropped event still ends in a reassociation request.
\<close>

theorem link_dropped_while_provisioning_counterexample:
  "provisioning (run_events [WIFI_EVENT_STA_START False []] initialize_wifi)
   \<and> wifi_calls (event_handler WIFI_EVENT_STA_DISCONNECTED
        (run_events [WIFI_EVENT_STA_START False []] initialize_wifi))
      = wifi_calls (run_events [WIFI_EVENT_STA_START False []] initialize_wifi)
        @ [esp_wifi_connect]"
  unfolding provisioning_state
  by (simp add: provisioning_def event_handler_def record_call_def xEventGroupClearBits_def)

text \<open>
  Claim C9. In every run from initialisation the task list holds at most one report task
  and at most one listener task; an address-acquired event when the report task exists
  only sets the flag, and a start event without usable credentials when the listener
  exists changes nothing.
\<close>

theorem single_task_instances:
  "count_list (task_list (run_events evs initialize_wifi)) ''report_task'' \<le> 1
   \<and> count_list (task_list (run_events evs initialize_wifi)) ''sc_task'' \<le> 1
   \<and> (xTaskGetHandle ''report_task'' s \<noteq> None \<longrightarrow>
        event_handler IP_EVENT_STA_GOT_IP s = xEventGroupSetBits CONNECTED_BIT s)
   \<and> (xTaskGetHandle ''sc_task'' s \<noteq> None \<and> \<not> (err_ok \<and> 0 < strlen ssid) \<longrightarrow>
        event_handler (WIFI_EVENT_STA_START err_ok ssid) s = s)"
proof -
  have "distinct (task_list (run_events evs initialize_wifi))"
    by (rule distinct_run_events) (simp add: initialize_wifi_def)
  then have "count_list (task_list (run_events evs initialize_wifi)) n \<le> 1" for n
    by (rule count_list_distinct)
  then show ?thesis
    using got_ip_idempotent [of s] sta_start_idempotent [of s err_ok ssid] by blast
qed

theorem single_task_instances_witness:
  "xTaskGetHandle ''report_task''
     (run_events [WIFI_EVENT_STA_START False [], IP_EVENT_STA_GOT_IP] initialize_wifi) \<noteq> None
   \<and> event_handler IP_EVENT_STA_GOT_IP
       (run_events [WIFI_EVENT_STA_START False [], IP_EVENT_STA_GOT_IP] initialize_wifi)
     = xEventGroupSetBits CONNECTED_BIT
         (run_events [WIFI_EVENT_STA_START False [], IP_EVENT_STA_GOT_IP] initialize_wifi)
   \<and> xTaskGetHandle ''sc_task''
       (run_events [WIFI_EVENT_STA_START False [], IP_EVENT_STA_GOT_IP] initialize_wifi) \<noteq> None
   \<and> event_handler (WIFI_EVENT_STA_START False [])
       (run_events [WIFI_EVENT_STA_START False [], IP_EVENT_STA_GOT_IP] initialize_wifi)
     = run_events [WIFI_EVENT_STA_START False [], IP_EVENT_STA_GOT_IP] initialize_wifi
   \<and> count_list (task_list
        (run_events [WIFI_EVENT_STA_START False [], IP_EVENT_STA_GOT_IP, IP_EVENT_STA_GOT_IP,
                     WIFI_EVENT_STA_START False []] initialize_wifi)) ''report_task'' \<le> 1"
proof -
  let ?s = "run_events [WIFI_EVENT_STA_START False [], IP_EVENT_STA_GOT_IP] initialize_wifi"
  have r: "xTaskGetHandle ''report_task'' ?s \<noteq> None"
    unfolding both_tasks_state by (simp add: xTaskGetHandle_def)
  have c: "xTaskGetHandle ''sc_task'' ?s \<noteq> None"
    unfolding both_tasks_state by (simp add: xTaskGetHandle_def)
  have n: "\<not> (False \<and> 0 < strlen [])" by simp
  from single_task_instances
         [of "[WIFI_EVENT_STA_START False [], IP_EVENT_STA_GOT_IP, IP_EVENT_STA_GOT_IP,
               WIFI_EVENT_STA_START False []]" ?s False "[]"]
       r c n
  show ?thesis by (elim conjE) (intro conjI, simp_all)
qed

end
